theory Spec2Isabelle
  imports Complex_Main "HOL-Library.Monad_Syntax"
begin

section \<open>Python values shared by the three modules\<close>

text \<open>
  A Python \<open>str\<close> is a sequence of Unicode code points and \<open>len\<close> counts code points,
  so a string is modelled as the list of its code points. ASCII literals are written
  through \<open>str\<close>.
\<close>

type_synonym pystr = "nat list"

definition str :: "string \<Rightarrow> pystr" where
  "str s = map of_char s"

text \<open>\<open>str(n)\<close> for a non-negative integer: its decimal digits.\<close>

function str_nat :: "nat \<Rightarrow> pystr" where
  "str_nat n = (if n < 10 then [48 + n] else str_nat (n div 10) @ [48 + n mod 10])"
  by pat_completeness auto
termination
  by (relation "measure id") auto

declare str_nat.simps [simp del]

definition str_int :: "int \<Rightarrow> pystr" where
  "str_int i = (if i < 0 then 45 # str_nat (nat (- i)) else str_nat (nat i))"

text \<open>\<open>sep.join(xs)\<close>.\<close>

fun join :: "pystr \<Rightarrow> pystr list \<Rightarrow> pystr" where
  "join sep [] = []"
| "join sep [x] = x"
| "join sep (x # y # ys) = x @ sep @ join sep (y # ys)"

text \<open>
  Exceptions are values. The classes are the ones the three modules raise or catch;
  \<open>RetryError\<close> is what the retrying decorator raises when it gives up, wrapping the
  exception of the last attempt.
\<close>

datatype exn_class =
  RuntimeError | ValueError | TypeError | KeyError | AttributeError | ZeroDivisionError
  | OverflowError | TokenLimitExceeded | OpenAIError | OtherException

datatype exn = Exn exn_class pystr | RetryError exn

fun str_exn :: "exn \<Rightarrow> pystr" where
  "str_exn (Exn c m) = m"
| "str_exn (RetryError e) = str ''RetryError''"

text \<open>The \<open>AttributeError\<close> of an attribute access on the object \<open>None\<close>.\<close>

definition no_attribute :: "pystr \<Rightarrow> exn" where
  "no_attribute attr =
     Exn AttributeError ([39] @ str ''NoneType'' @ [39] @ str '' object has no attribute ''
                         @ [39] @ attr @ [39])"

section \<open>app/agent/base.py: the agent and its step loop\<close>

datatype AgentState = IDLE | RUNNING | FINISHED | ERROR

datatype Role = System | User | Assistant | Tool

record Message =
  role :: Role
  content :: "pystr option"
  base64_image :: "pystr option"

record BaseAgent =
  name :: pystr
  next_step_prompt :: "pystr option"
  memory :: "Message list"
  state :: AgentState
  max_steps :: int
  current_step :: int
  duplicate_threshold :: int

text \<open>
  \<open>is_stuck\<close>: fewer than two messages is never stuck; a last message whose content is
  \<open>None\<close> or empty is never stuck; otherwise the earlier messages (all but the last)
  with role assistant and the same content are counted and compared with the threshold.
\<close>

definition duplicate_count :: "Message list \<Rightarrow> Message \<Rightarrow> int" where
  "duplicate_count prior last_message =
     int (length (filter (\<lambda>msg. role msg = Assistant \<and> content msg = content last_message)
                         (rev prior)))"

definition is_stuck :: "'a BaseAgent_scheme \<Rightarrow> bool" where
  "is_stuck self =
     (if length (memory self) < 2 then False
      else let last_message = last (memory self) in
        if content last_message = None \<or> content last_message = Some [] then False
        else duplicate_count (butlast (memory self)) last_message \<ge> duplicate_threshold self)"


definition stuck_prompt :: pystr where
  "stuck_prompt = str ''        Observed duplicate responses. Consider new strategies and avoid repeating ineffective paths already attempted.''"

text \<open>An f-string renders \<open>None\<close> as the text \<open>None\<close>.\<close>

definition fmt_opt :: "pystr option \<Rightarrow> pystr" where
  "fmt_opt p = (case p of None \<Rightarrow> str ''None'' | Some t \<Rightarrow> t)"

definition handle_stuck_state :: "BaseAgent \<Rightarrow> BaseAgent" where
  "handle_stuck_state self =
     self\<lparr>next_step_prompt := Some (stuck_prompt @ [10] @ fmt_opt (next_step_prompt self))\<rparr>"

text \<open>
  \<open>update_memory\<close>: the role is looked up in \<open>message_map\<close>; an unknown role raises
  \<open>ValueError\<close>. \<open>Memory.add_message\<close> lives in app/schema.py, outside the sources at
  hand. Modelled from the spec: Memory is an append-only ordered log, so adding a message
  appends it.
\<close>

definition message_map :: "pystr \<Rightarrow> Role option" where
  "message_map r =
     (if r = str ''user'' then Some User
      else if r = str ''system'' then Some System
      else if r = str ''assistant'' then Some Assistant
      else if r = str ''tool'' then Some Tool
      else None)"

definition update_memory :: "pystr \<Rightarrow> pystr \<Rightarrow> pystr option \<Rightarrow> BaseAgent \<Rightarrow> exn + BaseAgent" where
  "update_memory r c img self =
     (case message_map r of
        None \<Rightarrow> Inl (Exn ValueError (str ''Unsupported message role: '' @ r))
      | Some ro \<Rightarrow>
          Inr (self\<lparr>memory := memory self @ [\<lparr>role = ro, content = Some c, base64_image = img\<rparr>]\<rparr>))"

text \<open>
  The abstract \<open>step\<close> is a parameter: it receives the agent, may change any of its
  fields, and either returns its text or raises; in both cases the agent it leaves
  behind is returned too.
\<close>

type_synonym step_fn = "BaseAgent \<Rightarrow> (exn + pystr) \<times> BaseAgent"

text \<open>
  The \<open>while\<close> loop of \<open>run\<close>. It may run forever (a step may lower the counter), so it
  is a partial function: \<open>None\<close> is the loop that never ends. Besides the result list and
  the agent, it returns the successive snapshots of the agent after each assignment
  and each step, so that properties of every intermediate point can be stated.
\<close>

partial_function (option) run_loop ::
  "step_fn \<Rightarrow> BaseAgent \<Rightarrow> pystr list \<Rightarrow> BaseAgent list
     \<Rightarrow> ((exn + pystr list) \<times> BaseAgent \<times> BaseAgent list) option" where
  "run_loop step self results snaps =
     (if current_step self < max_steps self \<and> state self \<noteq> FINISHED then
        let self1 = self\<lparr>current_step := current_step self + 1\<rparr> in
        case step self1 of
          (Inl e, self2) \<Rightarrow> Some (Inl e, self2, snaps @ [self1, self2])
        | (Inr step_result, self2) \<Rightarrow>
            let self3 = (if is_stuck self2 then handle_stuck_state self2 else self2) in
            run_loop step self3
              (results @ [str ''Step '' @ str_int (current_step self3) @ str '': '' @ step_result])
              (snaps @ [self1, self2, self3])
      else Some (Inr results, self, snaps))"

declare run_loop.simps [code]

text \<open>
  The body of the \<open>async with\<close> block: the loop, then the reset when the counter has
  reached the cap. The flag tells whether that reset branch was taken.
\<close>

definition run_body ::
  "step_fn \<Rightarrow> BaseAgent \<Rightarrow> ((exn + pystr list \<times> bool) \<times> BaseAgent \<times> BaseAgent list) option" where
  "run_body step self =
     (case run_loop step self [] [] of
        None \<Rightarrow> None
      | Some (Inl e, self', snaps) \<Rightarrow> Some (Inl e, self', snaps)
      | Some (Inr results, self', snaps) \<Rightarrow>
          if current_step self' \<ge> max_steps self' then
            let self'' = self'\<lparr>current_step := 0, state := IDLE\<rparr> in
            Some (Inr (results @ [str ''Terminated: Reached max steps ('' @ str_int (max_steps self')
                                   @ str '')''], True),
                  self'', snaps @ [self''])
          else Some (Inr (results, False), self', snaps))"

text \<open>
  \<open>state_context\<close>: the previous state is saved and the new one set; when the body
  raises, the \<open>except\<close> clause sets \<open>ERROR\<close> and re-raises, and then the \<open>finally\<close>
  clause, which runs on every exit, assigns the previous state.
\<close>

definition state_context ::
  "AgentState \<Rightarrow> (BaseAgent \<Rightarrow> ((exn + 'a) \<times> BaseAgent \<times> BaseAgent list) option) \<Rightarrow> BaseAgent
     \<Rightarrow> ((exn + 'a) \<times> BaseAgent \<times> BaseAgent list) option" where
  "state_context new_state body self =
     (let previous_state = state self;
          self1 = self\<lparr>state := new_state\<rparr>
      in case body self1 of
           None \<Rightarrow> None
         | Some (Inl e, self2, snaps) \<Rightarrow>
             let self3 = self2\<lparr>state := ERROR\<rparr>;
                 self4 = self3\<lparr>state := previous_state\<rparr>
             in Some (Inl e, self4, [self1] @ snaps @ [self3, self4])
         | Some (Inr v, self2, snaps) \<Rightarrow>
             let self4 = self2\<lparr>state := previous_state\<rparr>
             in Some (Inr v, self4, [self1] @ snaps @ [self4]))"

text \<open>
  What one call of \<open>run\<close> leaves behind: how it ended, the agent, how often
  \<open>SANDBOX_CLIENT.cleanup\<close> was called, whether the step cap ended the loop, and the
  snapshots of the agent in order.
\<close>

record run_result =
  outcome :: "exn + pystr"
  agent_after :: BaseAgent
  cleanup_calls :: nat
  cap_reached :: bool
  snapshots :: "BaseAgent list"

text \<open>
  \<open>AgentState\<close> is an enumeration declared in app/schema.py; an f-string renders a member
  as the class name, a dot and the member name (the \<open>__format__\<close> of \<open>Enum\<close> since
  Python 3.11).
\<close>

definition AgentState_fmt :: "AgentState \<Rightarrow> pystr" where
  "AgentState_fmt s =
     str ''AgentState.'' @
     (case s of IDLE \<Rightarrow> str ''IDLE'' | RUNNING \<Rightarrow> str ''RUNNING''
        | FINISHED \<Rightarrow> str ''FINISHED'' | ERROR \<Rightarrow> str ''ERROR'')"

text \<open>
  \<open>if request: self.update_memory("user", request)\<close>: a request that is \<open>None\<close> or empty
  adds nothing. The role \<open>user\<close> is in \<open>message_map\<close>, so the call does not raise.
\<close>

definition add_request :: "pystr option \<Rightarrow> BaseAgent \<Rightarrow> BaseAgent" where
  "add_request request self =
     (case request of
        None \<Rightarrow> self
      | Some req \<Rightarrow>
          if req = [] then self
          else (case update_memory (str ''user'') req None self of
                  Inl e \<Rightarrow> self | Inr s \<Rightarrow> s))"

text \<open>
  \<open>run\<close>. The sandbox client is an external collaborator: \<open>cleanup\<close> is the exception its
  \<open>cleanup()\<close> raises, if any. The call stands after the \<open>async with\<close> block, so it is
  reached only when the block ends without an exception.
\<close>

definition run :: "step_fn \<Rightarrow> exn option \<Rightarrow> pystr option \<Rightarrow> BaseAgent \<Rightarrow> run_result option" where
  "run step cleanup request self =
     (if state self \<noteq> IDLE then
        Some \<lparr>outcome = Inl (Exn RuntimeError
                 (str ''Cannot run agent from state: '' @ AgentState_fmt (state self))),
              agent_after = self, cleanup_calls = 0, cap_reached = False, snapshots = [self]\<rparr>
      else
        let self0 = add_request request self
        in case state_context RUNNING (run_body step) self0 of
             None \<Rightarrow> None
           | Some (Inl e, self', snaps) \<Rightarrow>
               Some \<lparr>outcome = Inl e, agent_after = self', cleanup_calls = 0,
                     cap_reached = False, snapshots = [self, self0] @ snaps\<rparr>
           | Some (Inr (results, cap), self', snaps) \<Rightarrow>
               Some \<lparr>outcome = (case cleanup of
                                  Some e \<Rightarrow> Inl e
                                | None \<Rightarrow> Inr (if results \<noteq> [] then join [10] results
                                               else str ''No steps executed'')),
                     agent_after = self', cleanup_calls = 1,
                     cap_reached = cap, snapshots = [self, self0] @ snaps\<rparr>)"

subsection \<open>Concrete agents and steps\<close>

definition idle_agent :: "int \<Rightarrow> int \<Rightarrow> BaseAgent" where
  "idle_agent cap thr =
     \<lparr>name = str ''agent'', next_step_prompt = None, memory = [], state = IDLE,
      max_steps = cap, current_step = 0, duplicate_threshold = thr\<rparr>"

definition text_message :: "Role \<Rightarrow> pystr \<Rightarrow> Message" where
  "text_message r c = \<lparr>role = r, content = Some c, base64_image = None\<rparr>"

definition assistant_message :: "pystr \<Rightarrow> Message" where
  "assistant_message c = \<lparr>role = Assistant, content = Some c, base64_image = None\<rparr>"

text \<open>A step that answers \<open>ok\<close> and records it, and a step that raises.\<close>

definition step_ok :: step_fn where
  "step_ok self =
     (Inr (str ''ok''), self\<lparr>memory := memory self @ [assistant_message (str ''ok'')]\<rparr>)"

definition step_raises :: step_fn where
  "step_raises self = (Inl (Exn OtherException (str ''boom'')), self)"

text \<open>A step that answers \<open>ok\<close> and moves the step counter five further.\<close>

definition step_jumps :: step_fn where
  "step_jumps self = (Inr (str ''ok''), self\<lparr>current_step := current_step self + 5\<rparr>)"

text \<open>
  The count as the specification words it, by position: the number of positions before
  the last one whose message has role assistant and content equal to the content of the
  last message.
\<close>

definition prior_assistant_duplicates :: "Message list \<Rightarrow> nat" where
  "prior_assistant_duplicates messages =
     length (filter (\<lambda>i. role (messages ! i) = Assistant
                          \<and> content (messages ! i) = content (messages ! (length messages - 1)))
                    [0..<length messages - 1])"

text \<open>
  The stuck test as the specification words it: the last message has content and the
  count of earlier assistant messages with that content reaches the threshold, with no
  condition on how many messages there are.
\<close>

definition is_stuck_as_claimed :: "BaseAgent \<Rightarrow> bool" where
  "is_stuck_as_claimed self =
     (memory self \<noteq> []
      \<and> content (memory self ! (length (memory self) - 1)) \<noteq> None
      \<and> content (memory self ! (length (memory self) - 1)) \<noteq> Some []
      \<and> int (prior_assistant_duplicates (memory self)) \<ge> duplicate_threshold self)"

section \<open>Python floats\<close>

text \<open>
  A finite Python float is an IEEE 754 binary64 number. It is modelled exactly, as a pair
  of integers: \<open>Float m e\<close> stands for \<open>m * 2 ^ e\<close>. All arithmetic below is integer
  arithmetic, so it can be evaluated on numerals.
\<close>

datatype pyfloat = Float int int

definition valof :: "pyfloat \<Rightarrow> rat" where
  "valof x = (case x of Float m e \<Rightarrow>
                if 0 \<le> e then of_int m * 2 ^ nat e else of_int m / 2 ^ nat (- e))"

text \<open>The number of binary digits of a positive integer.\<close>

function bitlen :: "int \<Rightarrow> nat" where
  "bitlen n = (if n \<le> 0 then 0 else Suc (bitlen (n div 2)))"
  by pat_completeness auto
termination
  by (relation "measure nat") auto

declare bitlen.simps [simp del]

text \<open>
  The quotient of two non-negative integers (\<open>den > 0\<close>) rounded to the nearest integer,
  ties to the even one.
\<close>

definition div_half_even :: "int \<Rightarrow> int \<Rightarrow> int" where
  "div_half_even num den =
     (let q = num div den; r = num mod den
      in if 2 * r < den then q else if den < 2 * r then q + 1
         else if even q then q else q + 1)"

text \<open>
  For positive integers \<open>a\<close> and \<open>d\<close>, the exponent \<open>lg\<close> with
  \<open>2 ^ lg \<le> a / d < 2 ^ (lg + 1)\<close>: the difference of the bit lengths, or one less.
\<close>

definition binary_exponent :: "int \<Rightarrow> int \<Rightarrow> int" where
  "binary_exponent a d =
     (let dd = int (bitlen a) - int (bitlen d)
      in if (if 0 \<le> dd then d * 2 ^ nat dd \<le> a else d \<le> a * 2 ^ nat (- dd))
         then dd else dd - 1)"

text \<open>\<open>a / (d * 2 ^ s)\<close> rounded to the nearest integer, ties to even.\<close>

definition scaled_quotient :: "int \<Rightarrow> int \<Rightarrow> int \<Rightarrow> int" where
  "scaled_quotient a d s =
     (if 0 \<le> s then div_half_even a (d * 2 ^ nat s)
      else div_half_even (a * 2 ^ nat (- s)) d)"

text \<open>
  \<open>round_double n d x\<close> is the binary64 number nearest to \<open>n / d * 2 ^ x\<close> (\<open>d > 0\<close>), ties
  to the even significand: 53 bits of precision for magnitudes from \<open>2 ^ -1022\<close> up, and
  the fixed spacing \<open>2 ^ -1074\<close> of the subnormal range below.
\<close>

definition round_double :: "int \<Rightarrow> int \<Rightarrow> int \<Rightarrow> pyfloat" where
  "round_double n d x =
     (if n = 0 then Float 0 0
      else
        let a = \<bar>n\<bar>;
            e = max (binary_exponent a d + x) (- 1022) - 52;
            m = scaled_quotient a d (e - x)
        in Float (if n < 0 then - m else m) e)"

text \<open>A rounded value fits when its magnitude is below \<open>2 ^ 1024\<close>.\<close>

definition fits :: "pyfloat \<Rightarrow> bool" where
  "fits x = (case x of Float m e \<Rightarrow> e < 971 \<or> (e = 971 \<and> \<bar>m\<bar> < 2 ^ 53))"

text \<open>
  \<open>a / b\<close> on integers is correctly rounded; it raises \<open>ZeroDivisionError\<close> for a zero
  divisor and \<open>OverflowError\<close> when the quotient does not fit.
\<close>

definition truediv :: "int \<Rightarrow> int \<Rightarrow> exn + pyfloat" where
  "truediv a b =
     (if b = 0 then Inl (Exn ZeroDivisionError (str ''division by zero''))
      else let q = round_double (if b < 0 then - a else a) \<bar>b\<bar> 0
           in if fits q then Inr q
              else Inl (Exn OverflowError (str ''integer division result too large for a float'')))"

text \<open>\<open>int(x)\<close> truncates toward zero; \<open>math.ceil(x)\<close> is the ceiling.\<close>

definition trunc :: "pyfloat \<Rightarrow> int" where
  "trunc x = (case x of Float m e \<Rightarrow>
                if 0 \<le> e then m * 2 ^ nat e
                else if 0 \<le> m then m div 2 ^ nat (- e) else - ((- m) div 2 ^ nat (- e)))"

definition ceil :: "pyfloat \<Rightarrow> int" where
  "ceil x = (case x of Float m e \<Rightarrow>
               if 0 \<le> e then m * 2 ^ nat e else - ((- m) div 2 ^ nat (- e)))"

text \<open>
  The product of two floats, rounded. A product that does not fit is infinite in Python;
  the callers below turn it into an integer or a text at once, which is where the model
  reports it.
\<close>

definition fmul :: "pyfloat \<Rightarrow> pyfloat \<Rightarrow> pyfloat" where
  "fmul x y = (case x of Float m1 e1 \<Rightarrow> case y of Float m2 e2 \<Rightarrow>
                 round_double (m1 * m2) 1 (e1 + e2))"

text \<open>
  \<open>int(n * x)\<close> for an integer \<open>n\<close> and a float \<open>x\<close>: the integer is converted to a float
  first (\<open>OverflowError\<close> when it does not fit), the product is rounded, and \<open>int\<close>
  truncates toward zero; \<open>int\<close> of an infinite product raises \<open>OverflowError\<close>.
\<close>

definition int_of_product :: "int \<Rightarrow> pyfloat \<Rightarrow> exn + int" where
  "int_of_product n x =
     (let nf = round_double n 1 0
      in if \<not> fits nf then Inl (Exn OverflowError (str ''int too large to convert to float''))
         else let p = fmul nf x
              in if \<not> fits p
                 then Inl (Exn OverflowError (str ''cannot convert float infinity to integer''))
                 else Inr (trunc p))"

text \<open>\<open>math.ceil(a / b)\<close> on integers.\<close>

definition ceil_div :: "int \<Rightarrow> int \<Rightarrow> exn + int" where
  "ceil_div a b = (case truediv a b of Inl e \<Rightarrow> Inl e | Inr q \<Rightarrow> Inr (ceil q))"

text \<open>
  The format \<open>.1f\<close> of a float: the decimal with one digit after the point that is nearest
  to the float's exact value, ties to the even digit, with the sign in front; an infinite
  value prints as \<open>inf\<close>.
\<close>

definition format_1f :: "pyfloat \<Rightarrow> pystr" where
  "format_1f x =
     (case x of Float m e \<Rightarrow>
        if \<not> fits x then (if m < 0 then [45] else []) @ str ''inf''
        else
          let t = nat (if 0 \<le> e then \<bar>m\<bar> * 10 * 2 ^ nat e
                       else div_half_even (\<bar>m\<bar> * 10) (2 ^ nat (- e)))
          in (if m < 0 then [45] else []) @ str_nat (t div 10) @ [46] @ str_nat (t mod 10))"

section \<open>app/llm.py: the token counter\<close>

text \<open>Sequencing of computations that may raise: the first exception ends the sequence.\<close>

definition bind_exn :: "exn + 'a \<Rightarrow> ('a \<Rightarrow> exn + 'b) \<Rightarrow> exn + 'b" where
  "bind_exn r f = (case r of Inl e \<Rightarrow> Inl e | Inr v \<Rightarrow> f v)"

definition BASE_MESSAGE_TOKENS :: int where "BASE_MESSAGE_TOKENS = 4"
definition FORMAT_TOKENS :: int where "FORMAT_TOKENS = 2"
definition LOW_DETAIL_IMAGE_TOKENS :: int where "LOW_DETAIL_IMAGE_TOKENS = 85"
definition HIGH_DETAIL_TILE_TOKENS :: int where "HIGH_DETAIL_TILE_TOKENS = 170"
definition MAX_SIZE :: int where "MAX_SIZE = 2048"
definition HIGH_DETAIL_TARGET_SHORT_SIDE :: int where "HIGH_DETAIL_TARGET_SHORT_SIDE = 768"
definition TILE_SIZE :: int where "TILE_SIZE = 512"

text \<open>
  \<open>_calculate_high_detail_tokens\<close>, statement by statement. The two scale factors are
  floats, each scaled side is \<open>int(side * scale)\<close>, and the tile counts are
  \<open>math.ceil(side / TILE_SIZE)\<close>. \<open>tile_tokens\<close> is the part after the first step: the
  scaling of the shorter side to 768, the tile count and the token count.
\<close>

definition tile_tokens :: "int \<Rightarrow> int \<Rightarrow> exn + int" where
  "tile_tokens width height =
     bind_exn (truediv HIGH_DETAIL_TARGET_SHORT_SIDE (min width height)) (\<lambda>scale.
     bind_exn (int_of_product width scale) (\<lambda>scaled_width.
     bind_exn (int_of_product height scale) (\<lambda>scaled_height.
     bind_exn (ceil_div scaled_width TILE_SIZE) (\<lambda>tiles_x.
     bind_exn (ceil_div scaled_height TILE_SIZE) (\<lambda>tiles_y.
     let total_tiles = tiles_x * tiles_y
     in Inr (total_tiles * HIGH_DETAIL_TILE_TOKENS + LOW_DETAIL_IMAGE_TOKENS))))))"

definition calculate_high_detail_tokens :: "int \<Rightarrow> int \<Rightarrow> exn + int" where
  "calculate_high_detail_tokens width height =
     bind_exn
       (if width > MAX_SIZE \<or> height > MAX_SIZE then
          bind_exn (truediv MAX_SIZE (max width height)) (\<lambda>scale.
          bind_exn (int_of_product width scale) (\<lambda>width'.
          bind_exn (int_of_product height scale) (\<lambda>height'.
          Inr (width', height'))))
        else Inr (width, height))
       (\<lambda>(width, height). tile_tokens width height)"

text \<open>
  An image item is a dict; the keys \<open>count_image\<close> reads are \<open>detail\<close> (default
  \<open>medium\<close>) and \<open>dimensions\<close>, a pair of integers. \<open>None\<close> is an absent key.
\<close>

record image_item =
  image_url :: pystr
  detail :: "pystr option"
  dimensions :: "(int \<times> int) option"

definition count_image :: "image_item \<Rightarrow> exn + int" where
  "count_image item =
     (let d = (case detail item of None \<Rightarrow> str ''medium'' | Some l \<Rightarrow> l) in
      if d = str ''low'' then Inr LOW_DETAIL_IMAGE_TOKENS
      else if (d = str ''high'' \<or> d = str ''medium'') \<and> dimensions item \<noteq> None then
        (case dimensions item of
           Some (width, height) \<Rightarrow> calculate_high_detail_tokens width height
         | None \<Rightarrow> Inr 1024)
      else if d = str ''high'' then calculate_high_detail_tokens 1024 1024
      else if d = str ''medium'' then Inr 1024
      else Inr 1024)"

text \<open>
  The tiling formula as the specification words it, in exact arithmetic: scale both sides
  down so that neither exceeds 2048, scale again so that the shorter side is 768, and
  count \<open>ceil(w / 512) * ceil(h / 512)\<close> tiles of 170 tokens, plus 85.
\<close>

definition tiling_as_specified :: "int \<Rightarrow> int \<Rightarrow> int" where
  "tiling_as_specified width height =
     (let w0 = (of_int width :: rat); h0 = (of_int height :: rat);
          s1 = (if max w0 h0 > 2048 then 2048 / max w0 h0 else 1);
          w1 = w0 * s1; h1 = h0 * s1;
          s2 = 768 / min w1 h1;
          w2 = w1 * s2; h2 = h1 * s2
      in \<lceil>w2 / 512\<rceil> * \<lceil>h2 / 512\<rceil> * 170 + 85)"

text \<open>
  The tokenizer is an external library; what the counter uses of it is the number of
  tokens of a text, \<open>len(tokenizer.encode(text))\<close>.
\<close>

type_synonym tokenizer = "pystr \<Rightarrow> nat"

definition count_text :: "tokenizer \<Rightarrow> pystr \<Rightarrow> int" where
  "count_text tok text = (if text = [] then 0 else int (tok text))"

text \<open>
  Message content is a text or a list whose items are a text, a dict with a \<open>text\<close> key, a
  dict with an \<open>image_url\<close> key, or some other dict. A formatted message is a dict; each
  field below is a key, \<open>None\<close> when the key is absent.
\<close>

datatype part = StrItem pystr | TextPart pystr | ImagePart image_item | OtherPart

datatype content_value = NoneContent | StrContent pystr | ListContent "part list"

record function_dict =
  fn_name :: "pystr option"
  fn_arguments :: "pystr option"

record tool_call_dict =
  tc_function :: "function_dict option"

record message_dict =
  m_role :: "pystr option"
  m_content :: "content_value option"
  m_tool_calls :: "tool_call_dict list option"
  m_name :: "pystr option"
  m_tool_call_id :: "pystr option"
  m_base64_image :: "pystr option"

fun count_parts :: "tokenizer \<Rightarrow> part list \<Rightarrow> int \<Rightarrow> exn + int" where
  "count_parts tok [] token_count = Inr token_count"
| "count_parts tok (item # items) token_count =
     (case item of
        StrItem s \<Rightarrow> count_parts tok items (token_count + count_text tok s)
      | TextPart s \<Rightarrow> count_parts tok items (token_count + count_text tok s)
      | ImagePart im \<Rightarrow>
          bind_exn (count_image im) (\<lambda>n. count_parts tok items (token_count + n))
      | OtherPart \<Rightarrow> count_parts tok items token_count)"

definition count_content :: "tokenizer \<Rightarrow> content_value \<Rightarrow> exn + int" where
  "count_content tok c =
     (case c of
        NoneContent \<Rightarrow> Inr 0
      | StrContent s \<Rightarrow> Inr (count_text tok s)
      | ListContent items \<Rightarrow> (if items = [] then Inr 0 else count_parts tok items 0))"

definition get_or_empty :: "pystr option \<Rightarrow> pystr" where
  "get_or_empty v = (case v of None \<Rightarrow> [] | Some s \<Rightarrow> s)"

fun count_tool_calls :: "tokenizer \<Rightarrow> tool_call_dict list \<Rightarrow> int" where
  "count_tool_calls tok [] = 0"
| "count_tool_calls tok (tool_call # rest) =
     (case tc_function tool_call of
        None \<Rightarrow> 0
      | Some f \<Rightarrow> count_text tok (get_or_empty (fn_name f))
                  + count_text tok (get_or_empty (fn_arguments f)))
     + count_tool_calls tok rest"

definition message_tokens :: "tokenizer \<Rightarrow> message_dict \<Rightarrow> exn + int" where
  "message_tokens tok message =
     bind_exn (case m_content message of None \<Rightarrow> Inr 0 | Some c \<Rightarrow> count_content tok c)
       (\<lambda>content_tokens.
          Inr (BASE_MESSAGE_TOKENS
               + count_text tok (get_or_empty (m_role message))
               + content_tokens
               + (case m_tool_calls message of None \<Rightarrow> 0 | Some tcs \<Rightarrow> count_tool_calls tok tcs)
               + count_text tok (get_or_empty (m_name message))
               + count_text tok (get_or_empty (m_tool_call_id message))))"

fun sum_message_tokens :: "tokenizer \<Rightarrow> message_dict list \<Rightarrow> int \<Rightarrow> exn + int" where
  "sum_message_tokens tok [] total_tokens = Inr total_tokens"
| "sum_message_tokens tok (message # rest) total_tokens =
     bind_exn (message_tokens tok message)
       (\<lambda>tokens. sum_message_tokens tok rest (total_tokens + tokens))"

definition count_message_tokens :: "tokenizer \<Rightarrow> message_dict list \<Rightarrow> exn + int" where
  "count_message_tokens tok messages = sum_message_tokens tok messages FORMAT_TOKENS"

section \<open>app/llm.py: the LLM class\<close>

subsection \<open>One instance per configuration name\<close>

datatype client =
  AsyncAzureOpenAI pystr pystr pystr | BedrockClient | AsyncOpenAI pystr pystr


text \<open>
  An LLM object. \<open>client = None\<close> is the object that has no \<open>client\<close> attribute yet, which
  is what \<open>__init__\<close> tests; the token counter is determined by the tokenizer.
\<close>

record LLM =
  model :: pystr
  max_tokens :: int
  temperature :: pyfloat
  api_type :: pystr
  api_key :: pystr
  api_version :: pystr
  base_url :: pystr
  total_input_tokens :: int
  total_completion_tokens :: int
  max_input_tokens :: "int option"
  tokenizer :: tokenizer
  client :: "client option"







text \<open>\<open>update_token_count\<close> on the object itself, and through a reference.\<close>

definition update_token_count :: "int \<Rightarrow> int \<Rightarrow> LLM \<Rightarrow> LLM" where
  "update_token_count input_tokens completion_tokens self =
     self\<lparr>total_input_tokens := total_input_tokens self + input_tokens,
          total_completion_tokens := total_completion_tokens self + completion_tokens\<rparr>"




subsection \<open>The token budget\<close>

definition count_tokens :: "LLM \<Rightarrow> pystr \<Rightarrow> int" where
  "count_tokens self text = (if text = [] then 0 else int (tokenizer self text))"

definition check_token_limit :: "LLM \<Rightarrow> int \<Rightarrow> bool" where
  "check_token_limit self input_tokens =
     (case max_input_tokens self of
        Some m \<Rightarrow> total_input_tokens self + input_tokens \<le> m
      | None \<Rightarrow> True)"

definition get_limit_error_message :: "LLM \<Rightarrow> int \<Rightarrow> pystr" where
  "get_limit_error_message self input_tokens =
     (case max_input_tokens self of
        Some m \<Rightarrow>
          if total_input_tokens self + input_tokens > m
          then str ''Request may exceed input token limit (Current: ''
               @ str_int (total_input_tokens self) @ str '', Needed: '' @ str_int input_tokens
               @ str '', Max: '' @ str_int m @ str '')''
          else str ''Token limit exceeded''
      | None \<Rightarrow> str ''Token limit exceeded'')"

subsection \<open>Formatting messages\<close>

definition REASONING_MODELS :: "pystr list" where
  "REASONING_MODELS = [str ''o1'', str ''o3-mini'']"

definition MULTIMODAL_MODELS :: "pystr list" where
  "MULTIMODAL_MODELS =
     [str ''gpt-4-vision-preview'', str ''gpt-4o'', str ''gpt-4o-mini'',
      str ''claude-3-opus-20240229'', str ''claude-3-sonnet-20240229'',
      str ''claude-3-haiku-20240307'']"

text \<open>
  \<open>ROLE_VALUES\<close> is declared in app/schema.py, outside the sources at hand. Modelled from
  the spec: a message role is one of system, user, assistant, tool.
\<close>

definition ROLE_VALUES :: "pystr list" where
  "ROLE_VALUES = [str ''system'', str ''user'', str ''assistant'', str ''tool'']"

text \<open>
  A message handed to the LLM is a \<open>Message\<close> object, a dict, or something else, of which
  only the text of its type is kept (\<open><class 'int'>\<close> for an integer). A dict is changed
  in place by \<open>format_messages\<close>, so the caller's list is returned as it is left.
\<close>

datatype in_message = FromMessage Message | FromDict message_dict | Unsupported pystr

definition truthy :: "pystr option \<Rightarrow> bool" where
  "truthy v = (v \<noteq> None \<and> v \<noteq> Some [])"

definition content_parts :: "content_value option \<Rightarrow> part list" where
  "content_parts c =
     (case c of
        None \<Rightarrow> []
      | Some NoneContent \<Rightarrow> []
      | Some (StrContent s) \<Rightarrow> (if s = [] then [] else [TextPart s])
      | Some (ListContent items) \<Rightarrow>
          map (\<lambda>item. case item of StrItem s \<Rightarrow> TextPart s | _ \<Rightarrow> item) items)"

definition format_dict :: "bool \<Rightarrow> message_dict \<Rightarrow> (exn + message_dict option) \<times> message_dict" where
  "format_dict supports_images message =
     (if m_role message = None then
        (Inl (Exn ValueError
               (str ''Message dict must contain '' @ [39] @ str ''role'' @ [39] @ str '' field'')),
         message)
      else
        let message' =
          (if supports_images \<and> truthy (m_base64_image message) then
             message\<lparr>m_content := Some (ListContent
                        (content_parts (m_content message)
                         @ [ImagePart \<lparr>image_url = str ''data:image/jpeg;base64,''
                                                     @ get_or_empty (m_base64_image message),
                                        detail = None, dimensions = None\<rparr>])),
                     m_base64_image := None\<rparr>
           else if \<not> supports_images \<and> truthy (m_base64_image message) then
             message\<lparr>m_base64_image := None\<rparr>
           else message)
        in (Inr (if m_content message' \<noteq> None \<or> m_tool_calls message' \<noteq> None
                 then Some message' else None),
            message'))"

definition format_message ::
  "(Message \<Rightarrow> message_dict) \<Rightarrow> bool \<Rightarrow> in_message
     \<Rightarrow> (exn + message_dict option) \<times> in_message" where
  "format_message to_dict supports_images message =
     (case message of
        FromMessage msg \<Rightarrow> (fst (format_dict supports_images (to_dict msg)), FromMessage msg)
      | FromDict d \<Rightarrow>
          (case format_dict supports_images d of (r, d') \<Rightarrow> (r, FromDict d'))
      | Unsupported type_text \<Rightarrow>
          (Inl (Exn TypeError (str ''Unsupported message type: '' @ type_text)),
           Unsupported type_text))"

fun format_loop ::
  "(Message \<Rightarrow> message_dict) \<Rightarrow> bool \<Rightarrow> in_message list \<Rightarrow> message_dict list
     \<Rightarrow> (exn + message_dict list) \<times> in_message list" where
  "format_loop to_dict supports_images [] formatted_messages = (Inr formatted_messages, [])"
| "format_loop to_dict supports_images (message # rest) formatted_messages =
     (case format_message to_dict supports_images message of
        (Inl e, message') \<Rightarrow> (Inl e, message' # rest)
      | (Inr r, message') \<Rightarrow>
          (case format_loop to_dict supports_images rest
                  (formatted_messages @ (case r of None \<Rightarrow> [] | Some d \<Rightarrow> [d])) of
             (res, rest') \<Rightarrow> (res, message' # rest')))"

definition format_messages ::
  "(Message \<Rightarrow> message_dict) \<Rightarrow> bool \<Rightarrow> in_message list
     \<Rightarrow> (exn + message_dict list) \<times> in_message list" where
  "format_messages to_dict supports_images messages =
     (case format_loop to_dict supports_images messages [] of
        (Inl e, messages') \<Rightarrow> (Inl e, messages')
      | (Inr formatted_messages, messages') \<Rightarrow>
          (case find (\<lambda>msg. get_or_empty (m_role msg) \<notin> set ROLE_VALUES) formatted_messages of
             Some msg \<Rightarrow>
               (Inl (Exn ValueError (str ''Invalid role: '' @ get_or_empty (m_role msg))),
                messages')
           | None \<Rightarrow> (Inr formatted_messages, messages')))"

subsection \<open>The provider and the calls\<close>

datatype json =
  JNull | JBool bool | JInt int | JStr pystr | JList "json list" | JDict "(pystr \<times> json) list"

datatype arguments = ArgsStr pystr | ArgsDict "(pystr \<times> json) list"

record response_tool_call =
  call_name :: pystr
  call_arguments :: arguments

record ChatCompletionMessage =
  cm_content :: "pystr option"
  cm_tool_calls :: "response_tool_call list"

text \<open>
  A completion: for each choice its message (\<open>None\<close> when the choice has none) and the
  usage counters.
\<close>

record ChatCompletion =
  choices :: "ChatCompletionMessage option list"
  prompt_tokens :: int
  completion_tokens :: int

text \<open>
  What the calls take from outside the class. \<open>to_dict\<close> is \<open>Message.to_dict\<close> and
  \<open>TOOL_CHOICE_VALUES\<close> a constant, both of app/schema.py. \<open>create\<close> and \<open>create_stream\<close>
  are the provider: the reply to the \<open>n\<close>-th request sent, a completion or, for a
  streamed request, the texts of the chunks (\<open>delta.content or ""\<close>), or an exception.
  \<open>TokenLimitExceeded\<close> is declared in app/exceptions.py;
  \<open>TokenLimitExceeded_is_Exception\<close> tells whether the class derives from \<open>Exception\<close>.
\<close>

record provider =
  to_dict :: "Message \<Rightarrow> message_dict"
  TOOL_CHOICE_VALUES :: "pystr list"
  create :: "nat \<Rightarrow> exn + ChatCompletion"
  create_stream :: "nat \<Rightarrow> exn + pystr list"
  TokenLimitExceeded_is_Exception :: bool

text \<open>
  The state of one call across its attempts: the LLM object, the two argument lists (whose
  dicts the formatting changes in place) and the number of requests sent to the provider.
\<close>

record call_state =
  cs_llm :: LLM
  cs_system_msgs :: "in_message list"
  cs_messages :: "in_message list"
  cs_calls :: nat

text \<open>
  The opening of \<open>ask\<close> and \<open>ask_tool\<close>: the system messages, when there are any, and the
  messages are formatted and joined.
\<close>

definition prepare ::
  "provider \<Rightarrow> LLM \<Rightarrow> in_message list \<Rightarrow> in_message list
     \<Rightarrow> (exn + message_dict list) \<times> in_message list \<times> in_message list" where
  "prepare env self system_msgs messages =
     (let supports_images = (model self \<in> set MULTIMODAL_MODELS) in
      if system_msgs \<noteq> [] then
        (case format_messages (to_dict env) supports_images system_msgs of
           (Inl e, system_msgs') \<Rightarrow> (Inl e, system_msgs', messages)
         | (Inr sys_formatted, system_msgs') \<Rightarrow>
             (case format_messages (to_dict env) supports_images messages of
                (Inl e, messages') \<Rightarrow> (Inl e, system_msgs', messages')
              | (Inr formatted, messages') \<Rightarrow>
                  (Inr (sys_formatted @ formatted), system_msgs', messages')))
      else
        (case format_messages (to_dict env) supports_images messages of
           (r, messages') \<Rightarrow> (r, system_msgs, messages')))"

text \<open>\<open>str.strip()\<close>: whitespace is removed at both ends.\<close>

definition isspace :: "nat \<Rightarrow> bool" where
  "isspace c =
     ((9 \<le> c \<and> c \<le> 13) \<or> (28 \<le> c \<and> c \<le> 32) \<or> c = 133 \<or> c = 160 \<or> c = 5760
      \<or> (8192 \<le> c \<and> c \<le> 8202) \<or> c = 8232 \<or> c = 8233 \<or> c = 8239 \<or> c = 8287 \<or> c = 12288)"

definition strip :: "pystr \<Rightarrow> pystr" where
  "strip s = rev (dropWhile isspace (rev (dropWhile isspace s)))"

text \<open>
  One attempt of \<open>ask\<close>: the body of the function, whose \<open>except\<close> clauses log and
  re-raise. The request parameters (model, token cap, temperature) play no part in what
  follows and are not modelled.
\<close>

definition ask_attempt :: "provider \<Rightarrow> bool \<Rightarrow> call_state \<Rightarrow> (exn + pystr) \<times> call_state" where
  "ask_attempt env stream st =
     (let self = cs_llm st in
      case prepare env self (cs_system_msgs st) (cs_messages st) of
        (Inl e, system_msgs', messages') \<Rightarrow>
          (Inl e, st\<lparr>cs_system_msgs := system_msgs', cs_messages := messages'\<rparr>)
      | (Inr messages, system_msgs', messages') \<Rightarrow>
          let st1 = st\<lparr>cs_system_msgs := system_msgs', cs_messages := messages'\<rparr> in
          case count_message_tokens (tokenizer self) messages of
            Inl e \<Rightarrow> (Inl e, st1)
          | Inr input_tokens \<Rightarrow>
              if \<not> check_token_limit self input_tokens then
                (Inl (Exn TokenLimitExceeded (get_limit_error_message self input_tokens)), st1)
              else if \<not> stream then
                (let st2 = st1\<lparr>cs_calls := cs_calls st1 + 1\<rparr> in
                 case create env (cs_calls st1) of
                   Inl e \<Rightarrow> (Inl e, st2)
                 | Inr response \<Rightarrow>
                     (case choices response of
                        [] \<Rightarrow> (Inl (Exn ValueError (str ''Empty or invalid response from LLM'')), st2)
                      | None # _ \<Rightarrow> (Inl (no_attribute (str ''content'')), st2)
                      | Some msg # _ \<Rightarrow>
                          if \<not> truthy (cm_content msg) then
                            (Inl (Exn ValueError (str ''Empty or invalid response from LLM'')), st2)
                          else
                            (Inr (get_or_empty (cm_content msg)),
                             st2\<lparr>cs_llm := update_token_count (prompt_tokens response)
                                               (completion_tokens response) self\<rparr>)))
              else
                (let self1 = update_token_count input_tokens 0 self;
                     st2 = st1\<lparr>cs_llm := self1, cs_calls := cs_calls st1 + 1\<rparr> in
                 case create_stream env (cs_calls st1) of
                   Inl e \<Rightarrow> (Inl e, st2)
                 | Inr collected_messages \<Rightarrow>
                     let completion_text = concat collected_messages;
                         full_response = strip (concat collected_messages)
                     in if full_response = [] then
                          (Inl (Exn ValueError (str ''Empty response from streaming LLM'')), st2)
                        else
                          (Inr full_response,
                           st2\<lparr>cs_llm := self1\<lparr>total_completion_tokens :=
                                    total_completion_tokens self1
                                    + count_tokens self1 completion_text\<rparr>\<rparr>)))"

text \<open>
  A tool offered to the model: whether it is a dict with a \<open>type\<close> key, and its \<open>str()\<close>.
\<close>

record tool =
  is_dict_with_type :: bool
  tool_str :: pystr

text \<open>One attempt of \<open>ask_tool\<close>; the answer \<open>None\<close> is the return value \<open>None\<close>.\<close>

definition ask_tool_attempt ::
  "provider \<Rightarrow> tool list \<Rightarrow> pystr \<Rightarrow> call_state
     \<Rightarrow> (exn + ChatCompletionMessage option) \<times> call_state" where
  "ask_tool_attempt env tools tool_choice st =
     (let self = cs_llm st in
      if tool_choice \<notin> set (TOOL_CHOICE_VALUES env) then
        (Inl (Exn ValueError (str ''Invalid tool_choice: '' @ tool_choice)), st)
      else
      case prepare env self (cs_system_msgs st) (cs_messages st) of
        (Inl e, system_msgs', messages') \<Rightarrow>
          (Inl e, st\<lparr>cs_system_msgs := system_msgs', cs_messages := messages'\<rparr>)
      | (Inr messages, system_msgs', messages') \<Rightarrow>
          let st1 = st\<lparr>cs_system_msgs := system_msgs', cs_messages := messages'\<rparr> in
          case count_message_tokens (tokenizer self) messages of
            Inl e \<Rightarrow> (Inl e, st1)
          | Inr msg_tokens \<Rightarrow>
              let tools_tokens = sum_list (map (\<lambda>t. count_tokens self (tool_str t)) tools);
                  input_tokens = msg_tokens + tools_tokens
              in
              if \<not> check_token_limit self input_tokens then
                (Inl (Exn TokenLimitExceeded (get_limit_error_message self input_tokens)), st1)
              else if \<exists>t \<in> set tools. \<not> is_dict_with_type t then
                (Inl (Exn ValueError (str ''Each tool must be a dict with '' @ [39] @ str ''type''
                                      @ [39] @ str '' field'')), st1)
              else
                (let st2 = st1\<lparr>cs_calls := cs_calls st1 + 1\<rparr> in
                 case create env (cs_calls st1) of
                   Inl e \<Rightarrow> (Inl e, st2)
                 | Inr response \<Rightarrow>
                     (case choices response of
                        [] \<Rightarrow> (Inr None, st2)
                      | None # _ \<Rightarrow> (Inr None, st2)
                      | Some msg # _ \<Rightarrow>
                          (Inr (Some msg),
                           st2\<lparr>cs_llm := update_token_count (prompt_tokens response)
                                             (completion_tokens response) self\<rparr>))))"

subsection \<open>The retrying decorator\<close>

text \<open>
  \<open>retry_if_exception_type((OpenAIError, Exception, ValueError))\<close> retries an attempt
  whose exception is an instance of one of the three classes. All exception classes of
  the model derive from \<open>Exception\<close>, \<open>TokenLimitExceeded\<close> as the parameter says.
\<close>

fun isinstance_Exception :: "bool \<Rightarrow> exn \<Rightarrow> bool" where
  "isinstance_Exception tle (Exn c m) = (if c = TokenLimitExceeded then tle else True)"
| "isinstance_Exception tle (RetryError e) = True"

fun isinstance_class :: "exn_class \<Rightarrow> exn \<Rightarrow> bool" where
  "isinstance_class k (Exn c m) = (c = k)"
| "isinstance_class k (RetryError e) = False"

definition retry_if_exception_type :: "bool \<Rightarrow> exn \<Rightarrow> bool" where
  "retry_if_exception_type tle e =
     (isinstance_class OpenAIError e \<or> isinstance_Exception tle e \<or> isinstance_class ValueError e)"

text \<open>
  The decorator \<open>retry(wait = ..., stop = stop_after_attempt(6), retry = ...)\<close>: the
  function is attempted; a result is returned; an exception the predicate rejects is
  raised as it is; one it accepts leads to another attempt, and after the sixth attempt to
  \<open>RetryError\<close> around the last exception. The result carries the number of attempts.
  Waiting between attempts has no effect on values and is not modelled.
\<close>

function retry_call ::
  "(exn \<Rightarrow> bool) \<Rightarrow> ('s \<Rightarrow> (exn + 'a) \<times> 's) \<Rightarrow> nat \<Rightarrow> 's \<Rightarrow> (exn + 'a) \<times> 's \<times> nat" where
  "retry_call retry f attempt_number s =
     (case f s of
        (Inr v, s') \<Rightarrow> (Inr v, s', attempt_number)
      | (Inl e, s') \<Rightarrow>
          if \<not> retry e then (Inl e, s', attempt_number)
          else if attempt_number \<ge> 6 then (Inl (RetryError e), s', attempt_number)
          else retry_call retry f (attempt_number + 1) s')"
  by pat_completeness auto
termination
  by (relation "measure (\<lambda>(retry, f, attempt_number, s). 6 - attempt_number)") auto

declare retry_call.simps [simp del]

definition ask :: "provider \<Rightarrow> bool \<Rightarrow> call_state \<Rightarrow> (exn + pystr) \<times> call_state \<times> nat" where
  "ask env stream st =
     retry_call (retry_if_exception_type (TokenLimitExceeded_is_Exception env))
       (ask_attempt env stream) 1 st"

definition ask_tool ::
  "provider \<Rightarrow> tool list \<Rightarrow> pystr \<Rightarrow> call_state
     \<Rightarrow> (exn + ChatCompletionMessage option) \<times> call_state \<times> nat" where
  "ask_tool env tools tool_choice st =
     retry_call (retry_if_exception_type (TokenLimitExceeded_is_Exception env))
       (ask_tool_attempt env tools tool_choice) 1 st"

subsection \<open>A concrete configuration\<close>



text \<open>
  An LLM object with a budget of 100 input tokens of which 90 are used, counting one token
  per character; a provider that always answers; and a request of one user message,
  estimated at 20 tokens (2 for the batch, 4 for the message, 4 for the role, 10 for the
  content).
\<close>

definition llm0 :: LLM where
  "llm0 =
     \<lparr>model = str ''gpt-4o'', max_tokens = 4096, temperature = Float 0 0,
      api_type = str ''openai'', api_key = str ''key'', api_version = [],
      base_url = str ''https://api.openai.com/v1'',
      total_input_tokens = 90, total_completion_tokens = 0, max_input_tokens = Some 100,
      tokenizer = length,
      client = Some (AsyncOpenAI (str ''key'') (str ''https://api.openai.com/v1''))\<rparr>"

definition provider0 :: provider where
  "provider0 =
     \<lparr>to_dict = (\<lambda>msg. \<lparr>m_role = Some (str ''user''),
                         m_content = map_option StrContent (content msg),
                         m_tool_calls = None, m_name = None, m_tool_call_id = None,
                         m_base64_image = base64_image msg\<rparr>),
      TOOL_CHOICE_VALUES = [str ''none'', str ''auto'', str ''required''],
      create = (\<lambda>n. Inr \<lparr>choices = [Some \<lparr>cm_content = Some (str ''done''), cm_tool_calls = []\<rparr>],
                          prompt_tokens = 20, completion_tokens = 1\<rparr>),
      create_stream = (\<lambda>n. Inr [str ''done'']),
      TokenLimitExceeded_is_Exception = True\<rparr>"

definition user_dict :: "pystr \<Rightarrow> message_dict" where
  "user_dict c =
     \<lparr>m_role = Some (str ''user''), m_content = Some (StrContent c), m_tool_calls = None,
      m_name = None, m_tool_call_id = None, m_base64_image = None\<rparr>"

definition call0 :: call_state where
  "call0 = \<lparr>cs_llm = llm0, cs_system_msgs = [],
            cs_messages = [FromDict (user_dict (str ''0123456789''))], cs_calls = 0\<rparr>"

text \<open>The exception raised when the budget is exceeded, with its three figures.\<close>

definition over_budget_error :: "LLM \<Rightarrow> int \<Rightarrow> int \<Rightarrow> exn" where
  "over_budget_error self n m =
     Exn TokenLimitExceeded
       (str ''Request may exceed input token limit (Current: '' @ str_int (total_input_tokens self)
        @ str '', Needed: '' @ str_int n @ str '', Max: '' @ str_int m @ str '')'')"

section \<open>app/flow/planning.py: the planning flow\<close>

subsection \<open>Step statuses\<close>

datatype PlanStepStatus = NOT_STARTED | IN_PROGRESS | COMPLETED | BLOCKED

text \<open>The enumeration is a string enumeration; plan storage holds the values.\<close>

fun status_value :: "PlanStepStatus \<Rightarrow> pystr" where
  "status_value NOT_STARTED = str ''not_started''"
| "status_value IN_PROGRESS = str ''in_progress''"
| "status_value COMPLETED = str ''completed''"
| "status_value BLOCKED = str ''blocked''"

definition get_all_statuses :: "pystr list" where
  "get_all_statuses = map status_value [NOT_STARTED, IN_PROGRESS, COMPLETED, BLOCKED]"

definition get_active_statuses :: "pystr list" where
  "get_active_statuses = [status_value NOT_STARTED, status_value IN_PROGRESS]"

text \<open>
  \<open>get_status_marks\<close>: a dict from status value to mark. The check mark is the code point
  U+2713 and the arrow U+2192.
\<close>

definition get_status_marks :: "(pystr \<times> pystr) list" where
  "get_status_marks =
     [(status_value COMPLETED, [91, 10003, 93]),
      (status_value IN_PROGRESS, [91, 8594, 93]),
      (status_value BLOCKED, str ''[!]''),
      (status_value NOT_STARTED, str ''[ ]'')]"

subsection \<open>Plan storage and the flow\<close>

text \<open>
  A stored plan is a dict; every key is read with \<open>.get\<close> and a default, so each field may
  be absent.
\<close>

record plan_data =
  p_title :: "pystr option"
  p_steps :: "pystr list option"
  p_step_statuses :: "pystr list option"
  p_step_notes :: "pystr list option"

type_synonym plan_store = "pystr \<Rightarrow> plan_data option"

text \<open>
  The flow object, with the plan storage of its planning tool. The base class is outside
  the sources at hand: its agents are a dict from key to agent, and the primary agent is
  the agent under the flow's primary key, if there is one. \<open>clock\<close> counts the calls made
  to the collaborators outside the flow, so that each call can have its own answer.
\<close>

record PlanningFlow =
  agents :: "pystr \<Rightarrow> BaseAgent option"
  primary_agent_key :: "pystr option"
  executor_keys :: "pystr list"
  active_plan_id :: pystr
  current_step_index :: "nat option"
  plans :: plan_store
  clock :: nat

definition primary_agent :: "PlanningFlow \<Rightarrow> BaseAgent option" where
  "primary_agent fl = (case primary_agent_key fl of None \<Rightarrow> None | Some k \<Rightarrow> agents fl k)"

text \<open>
  The result of a planning tool call: its \<open>output\<close> attribute, when it has one, and its
  \<open>str()\<close>.
\<close>

datatype attribute = Absent | Present "pystr option"

record tool_result =
  tr_output :: attribute
  tr_str :: pystr

text \<open>
  The collaborators of the flow. The planning tool takes keyword arguments and the plan
  storage and returns a result and the storage as it leaves it, or raises, leaving the
  storage as it was. The two LLM calls are \<open>ask_tool\<close> with the planning tool offered and
  \<open>ask\<close>, each given the text of its user message. \<open>json_loads\<close> is \<open>json.loads\<close>, \<open>None\<close> for
  \<open>JSONDecodeError\<close>. Every agent has its \<open>step\<close>, and the sandbox its cleanup.
\<close>

record flow_env =
  tool_execute :: "nat \<Rightarrow> (pystr \<times> json) list \<Rightarrow> plan_store \<Rightarrow> exn + tool_result \<times> plan_store"
  llm_ask_tool :: "nat \<Rightarrow> pystr \<Rightarrow> exn + ChatCompletionMessage option"
  llm_ask :: "nat \<Rightarrow> pystr \<Rightarrow> exn + pystr"
  json_loads :: "pystr \<Rightarrow> json option"
  agent_step :: "pystr \<Rightarrow> step_fn"
  sandbox_cleanup :: "nat \<Rightarrow> exn option"

definition call_tool ::
  "flow_env \<Rightarrow> (pystr \<times> json) list \<Rightarrow> PlanningFlow \<Rightarrow> (exn + tool_result) \<times> PlanningFlow" where
  "call_tool env kwargs fl =
     (case tool_execute env (clock fl) kwargs (plans fl) of
        Inl e \<Rightarrow> (Inl e, fl\<lparr>clock := clock fl + 1\<rparr>)
      | Inr (res, plans') \<Rightarrow> (Inr res, fl\<lparr>plans := plans', clock := clock fl + 1\<rparr>))"

definition mark_step_kwargs :: "pystr \<Rightarrow> nat \<Rightarrow> pystr \<Rightarrow> (pystr \<times> json) list" where
  "mark_step_kwargs plan_id step_index step_status =
     [(str ''command'', JStr (str ''mark_step'')), (str ''plan_id'', JStr plan_id),
      (str ''step_index'', JInt (int step_index)), (str ''step_status'', JStr step_status)]"

subsection \<open>Choosing the executor\<close>

text \<open>
  \<open>get_executor\<close> returns an agent; the model returns its key in the agents dict, under
  which the agent is updated after it has run. \<open>None\<close> is a missing primary agent.
\<close>

definition get_executor :: "PlanningFlow \<Rightarrow> pystr option \<Rightarrow> pystr option" where
  "get_executor fl step_type =
     (if step_type \<noteq> None \<and> step_type \<noteq> Some [] \<and> agents fl (get_or_empty step_type) \<noteq> None
      then step_type
      else case find (\<lambda>key. agents fl key \<noteq> None) (executor_keys fl) of
             Some key \<Rightarrow> Some key
           | None \<Rightarrow> (if primary_agent fl = None then None else primary_agent_key fl))"

subsection \<open>Finding the current step\<close>

text \<open>
  The loop over \<open>enumerate(steps)\<close>: the status of index \<open>i\<close> is \<open>not_started\<close> beyond the end
  of \<open>step_statuses\<close>; the first step whose status is an active one is returned with its
  index.
\<close>

fun find_current :: "pystr list \<Rightarrow> pystr list \<Rightarrow> nat \<Rightarrow> (nat \<times> pystr) option" where
  "find_current [] step_statuses i = None"
| "find_current (step # rest) step_statuses i =
     (let status = (if i \<ge> length step_statuses then status_value NOT_STARTED
                    else step_statuses ! i)
      in if status \<in> set get_active_statuses then Some (i, step)
         else find_current rest step_statuses (i + 1))"

text \<open>
  \<open>re.search(r"\[([A-Z_]+)\]", step)\<close>: the leftmost \<open>[\<close> that is followed by one or more
  capitals or underscores and then \<open>]\<close>; the group is lower-cased.
\<close>

definition is_tag_char :: "nat \<Rightarrow> bool" where
  "is_tag_char c = ((65 \<le> c \<and> c \<le> 90) \<or> c = 95)"

definition match_tag :: "pystr \<Rightarrow> pystr option" where
  "match_tag s =
     (let tag = takeWhile is_tag_char s; rest = dropWhile is_tag_char s
      in if tag \<noteq> [] \<and> rest \<noteq> [] \<and> hd rest = 93 then Some tag else None)"

fun search_tag :: "pystr \<Rightarrow> pystr option" where
  "search_tag [] = None"
| "search_tag (c # cs) =
     (if c = 91 then (case match_tag cs of Some tag \<Rightarrow> Some tag | None \<Rightarrow> search_tag cs)
      else search_tag cs)"

definition lower :: "pystr \<Rightarrow> pystr" where
  "lower s = map (\<lambda>c. if 65 \<le> c \<and> c \<le> 90 then c + 32 else c) s"

record step_info =
  si_text :: pystr
  si_type :: "pystr option"

definition get_field :: "'a list option \<Rightarrow> 'a list" where
  "get_field v = (case v of None \<Rightarrow> [] | Some xs \<Rightarrow> xs)"

text \<open>
  \<open>_get_current_step_info\<close>. When marking the step through the tool raises, the status
  list is updated directly and stored back.
\<close>

definition get_current_step_info ::
  "flow_env \<Rightarrow> PlanningFlow \<Rightarrow> (nat option \<times> step_info option) \<times> PlanningFlow" where
  "get_current_step_info env fl =
     (if active_plan_id fl = [] \<or> plans fl (active_plan_id fl) = None then ((None, None), fl)
      else case plans fl (active_plan_id fl) of
        None \<Rightarrow> ((None, None), fl)
      | Some plan \<Rightarrow>
          let steps = get_field (p_steps plan);
              step_statuses = get_field (p_step_statuses plan)
          in case find_current steps step_statuses 0 of
               None \<Rightarrow> ((None, None), fl)
             | Some (i, step) \<Rightarrow>
                 let info = \<lparr>si_text = step, si_type = map_option lower (search_tag step)\<rparr> in
                 case call_tool env
                        (mark_step_kwargs (active_plan_id fl) i (status_value IN_PROGRESS)) fl of
                   (Inr res, fl') \<Rightarrow> ((Some i, Some info), fl')
                 | (Inl e, fl') \<Rightarrow>
                     let step_statuses' =
                           (if i < length step_statuses
                            then step_statuses[i := status_value IN_PROGRESS]
                            else step_statuses
                                 @ replicate (i - length step_statuses) (status_value NOT_STARTED)
                                 @ [status_value IN_PROGRESS])
                     in ((Some i, Some info),
                         fl'\<lparr>plans := (plans fl')(active_plan_id fl \<mapsto>
                                          plan\<lparr>p_step_statuses := Some step_statuses'\<rparr>)\<rparr>))"

text \<open>
  The status a step counts with, and what it is for a status to be active; and a plan
  whose stored statuses are all values of the enumeration.
\<close>

definition status_at :: "pystr list \<Rightarrow> nat \<Rightarrow> pystr" where
  "status_at step_statuses i =
     (if i < length step_statuses then step_statuses ! i else status_value NOT_STARTED)"

definition is_active :: "pystr \<Rightarrow> bool" where
  "is_active status = (status = status_value NOT_STARTED \<or> status = status_value IN_PROGRESS)"

definition statuses_valid :: "pystr list \<Rightarrow> bool" where
  "statuses_valid step_statuses = list_all (\<lambda>s. s \<in> set get_all_statuses) step_statuses"

subsection \<open>Rendering the plan\<close>

text \<open>
  \<open>status_marks.get(status, status_marks[not_started])\<close>: the mark of a status, the mark of
  \<open>not_started\<close> for any other value.
\<close>

definition status_mark :: "pystr \<Rightarrow> pystr" where
  "status_mark status =
     (case map_of get_status_marks status of
        Some mark \<Rightarrow> mark
      | None \<Rightarrow> (case map_of get_status_marks (status_value NOT_STARTED) of
                   Some mark \<Rightarrow> mark | None \<Rightarrow> []))"

text \<open>
  \<open>status_counts\<close>: a dict with the four status values as keys, all 0 at first; the loop
  adds 1 for every status in \<open>step_statuses\<close> that is a key.
\<close>

definition count_statuses :: "pystr list \<Rightarrow> pystr \<Rightarrow> nat" where
  "count_statuses step_statuses =
     fold (\<lambda>status status_counts.
             if status \<in> set get_all_statuses
             then status_counts(status := status_counts status + 1) else status_counts)
          step_statuses (\<lambda>status. 0)"

text \<open>
  \<open>progress = (completed / n_total) * 100 if n_total > 0 else 0\<close>, formatted with \<open>.1f\<close>. The
  division and the product are float operations; the division raises \<open>OverflowError\<close> when
  the quotient does not fit.
\<close>

definition progress_text :: "nat \<Rightarrow> nat \<Rightarrow> exn + pystr" where
  "progress_text completed n_total =
     (if n_total > 0 then
        bind_exn (truediv (int completed) (int n_total))
          (\<lambda>q. Inr (format_1f (fmul q (round_double 100 1 0))))
      else Inr (format_1f (Float 0 0)))"

text \<open>\<open>while len(xs) < n: xs.append(x)\<close>.\<close>

definition pad_to :: "nat \<Rightarrow> 'a \<Rightarrow> 'a list \<Rightarrow> 'a list" where
  "pad_to n x xs = xs @ replicate (n - length xs) x"

text \<open>The loop over \<open>enumerate(zip(steps, step_statuses, step_notes))\<close>.\<close>

fun render_steps :: "nat \<Rightarrow> (pystr \<times> pystr \<times> pystr) list \<Rightarrow> pystr \<Rightarrow> pystr" where
  "render_steps i [] plan_text = plan_text"
| "render_steps i ((step, status, notes) # rest) plan_text =
     (let plan_text1 = plan_text @ str_nat i @ str ''. '' @ status_mark status @ str '' ''
                       @ step @ [10];
          plan_text2 = (if notes \<noteq> [] then plan_text1 @ str ''   Notes: '' @ notes @ [10]
                        else plan_text1)
      in render_steps (i + 1) rest plan_text2)"

text \<open>
  \<open>_generate_plan_text_from_storage\<close>. The status and note lists are padded to the number
  of steps; a list that is in the stored dict is padded in place, a missing one is a new
  list that is not stored. Any exception in the body is caught and gives the last text.
\<close>

definition generate_plan_text_from_storage :: "PlanningFlow \<Rightarrow> pystr \<times> PlanningFlow" where
  "generate_plan_text_from_storage fl =
     (case plans fl (active_plan_id fl) of
        None \<Rightarrow> (str ''Error: Plan with ID '' @ active_plan_id fl @ str '' not found'', fl)
      | Some plan \<Rightarrow>
          let title = (case p_title plan of None \<Rightarrow> str ''Untitled Plan'' | Some t \<Rightarrow> t);
              steps = get_field (p_steps plan);
              step_statuses = pad_to (length steps) (status_value NOT_STARTED)
                                (get_field (p_step_statuses plan));
              step_notes = pad_to (length steps) [] (get_field (p_step_notes plan));
              fl' = fl\<lparr>plans := (plans fl)(active_plan_id fl \<mapsto>
                       plan\<lparr>p_step_statuses := map_option (\<lambda>l. step_statuses) (p_step_statuses plan),
                            p_step_notes := map_option (\<lambda>l. step_notes) (p_step_notes plan)\<rparr>)\<rparr>;
              status_counts = count_statuses step_statuses;
              completed = status_counts (status_value COMPLETED);
              n_total = length steps
          in case progress_text completed n_total of
               Inl e \<Rightarrow> (str ''Error: Unable to retrieve plan with ID '' @ active_plan_id fl, fl')
             | Inr progress \<Rightarrow>
                 let plan_text0 = str ''Plan: '' @ title @ str '' (ID: '' @ active_plan_id fl
                                  @ str '')'' @ [10];
                     plan_text1 = plan_text0 @ replicate (length plan_text0) 61 @ [10, 10];
                     plan_text2 = plan_text1 @ str ''Progress: '' @ str_nat completed @ str ''/''
                                  @ str_nat n_total @ str '' steps completed ('' @ progress
                                  @ str ''%)'' @ [10];
                     plan_text3 = plan_text2 @ str ''Status: ''
                                  @ str_nat (status_counts (status_value COMPLETED))
                                  @ str '' completed, ''
                                  @ str_nat (status_counts (status_value IN_PROGRESS))
                                  @ str '' in progress, ''
                                  @ str_nat (status_counts (status_value BLOCKED))
                                  @ str '' blocked, ''
                                  @ str_nat (status_counts (status_value NOT_STARTED))
                                  @ str '' not started'' @ [10, 10];
                     plan_text4 = plan_text3 @ str ''Steps:'' @ [10]
                 in (render_steps 0 (zip steps (zip step_statuses step_notes)) plan_text4, fl'))"

text \<open>One line of the step list, with its note line when there is a note.\<close>

definition step_line :: "nat \<times> pystr \<times> pystr \<times> pystr \<Rightarrow> pystr" where
  "step_line x =
     (case x of (i, step, status, notes) \<Rightarrow>
        str_nat i @ str ''. '' @ status_mark status @ str '' '' @ step @ [10]
        @ (if notes \<noteq> [] then str ''   Notes: '' @ notes @ [10] else []))"

text \<open>The padded lists of a plan, and the number of its steps with a given status.\<close>

definition padded_statuses :: "plan_data \<Rightarrow> pystr list" where
  "padded_statuses plan =
     pad_to (length (get_field (p_steps plan))) (status_value NOT_STARTED)
       (get_field (p_step_statuses plan))"

definition padded_notes :: "plan_data \<Rightarrow> pystr list" where
  "padded_notes plan = pad_to (length (get_field (p_steps plan))) [] (get_field (p_step_notes plan))"

definition count_of :: "PlanStepStatus \<Rightarrow> plan_data \<Rightarrow> nat" where
  "count_of st plan = length (filter (\<lambda>s. s = status_value st) (padded_statuses plan))"

subsection \<open>Executing the plan\<close>

definition fmt_index :: "nat option \<Rightarrow> pystr" where
  "fmt_index i = (case i of None \<Rightarrow> str ''None'' | Some n \<Rightarrow> str_nat n)"

text \<open>
  \<open>_get_plan_text\<close>: the tool's answer to \<open>get\<close> (its \<open>output\<close> attribute when it has one,
  else its \<open>str()\<close>), and the text generated from storage when the tool raises.
\<close>

definition get_plan_text :: "flow_env \<Rightarrow> PlanningFlow \<Rightarrow> pystr option \<times> PlanningFlow" where
  "get_plan_text env fl =
     (case call_tool env [(str ''command'', JStr (str ''get'')),
                          (str ''plan_id'', JStr (active_plan_id fl))] fl of
        (Inr res, fl') \<Rightarrow>
          ((case tr_output res of Present v \<Rightarrow> v | Absent \<Rightarrow> Some (tr_str res)), fl')
      | (Inl e, fl') \<Rightarrow>
          (case generate_plan_text_from_storage fl' of (t, fl'') \<Rightarrow> (Some t, fl'')))"

text \<open>
  \<open>_mark_step_completed\<close>: through the tool, and directly in storage when the tool raises
  and the plan is there.
\<close>

definition mark_step_completed :: "flow_env \<Rightarrow> PlanningFlow \<Rightarrow> PlanningFlow" where
  "mark_step_completed env fl =
     (case current_step_index fl of
        None \<Rightarrow> fl
      | Some i \<Rightarrow>
          (case call_tool env
                  (mark_step_kwargs (active_plan_id fl) i (status_value COMPLETED)) fl of
             (Inr res, fl') \<Rightarrow> fl'
           | (Inl e, fl') \<Rightarrow>
               (case plans fl' (active_plan_id fl') of
                  None \<Rightarrow> fl'
                | Some plan \<Rightarrow>
                    let step_statuses = pad_to (i + 1) (status_value NOT_STARTED)
                                          (get_field (p_step_statuses plan))
                    in fl'\<lparr>plans := (plans fl')(active_plan_id fl' \<mapsto>
                           plan\<lparr>p_step_statuses :=
                                  Some (step_statuses[i := status_value COMPLETED])\<rparr>)\<rparr>)))"

text \<open>
  \<open>agent.run(prompt)\<close> for the agent under a key; the agent is stored back as the run leaves
  it. \<open>None\<close> as key is the object \<open>None\<close>, on which the call raises \<open>AttributeError\<close>. The
  result is \<open>None\<close> when the run does not end.
\<close>

definition run_agent ::
  "flow_env \<Rightarrow> pystr option \<Rightarrow> pystr \<Rightarrow> PlanningFlow \<Rightarrow> ((exn + pystr) \<times> PlanningFlow) option" where
  "run_agent env key prompt fl =
     (case (case key of None \<Rightarrow> None | Some k \<Rightarrow> map_option (Pair k) (agents fl k)) of
        None \<Rightarrow> Some (Inl (no_attribute (str ''run'')), fl)
      | Some (k, agent) \<Rightarrow>
          (case run (agent_step env k) (sandbox_cleanup env (clock fl)) (Some prompt) agent of
             None \<Rightarrow> None
           | Some r \<Rightarrow>
               Some (outcome r,
                     fl\<lparr>agents := (agents fl)(k \<mapsto> agent_after r), clock := clock fl + 1\<rparr>)))"

definition step_prompt :: "pystr option \<Rightarrow> nat option \<Rightarrow> pystr \<Rightarrow> pystr" where
  "step_prompt plan_status idx step_text =
     [10] @ str ''        CURRENT PLAN STATUS:'' @ [10]
     @ str ''        '' @ fmt_opt plan_status @ [10, 10]
     @ str ''        YOUR CURRENT TASK:'' @ [10]
     @ str ''        You are now working on step '' @ fmt_index idx @ str '': '' @ [34]
     @ step_text @ [34, 10, 10]
     @ str ''        Please execute this step using the appropriate tools. When you''
     @ [39] @ str ''re done, provide a summary of what you accomplished.'' @ [10]
     @ str ''        ''"

text \<open>
  \<open>_execute_step\<close>: the plan text and the step text are read before the \<open>try\<close> (a missing
  \<open>step_info\<close> raises there); inside it the executor runs and the step is marked completed,
  and any exception becomes the returned error line.
\<close>

definition execute_step ::
  "flow_env \<Rightarrow> pystr option \<Rightarrow> step_info option \<Rightarrow> PlanningFlow
     \<Rightarrow> ((exn + pystr) \<times> PlanningFlow) option" where
  "execute_step env executor info fl =
     (case get_plan_text env fl of
        (plan_status, fl1) \<Rightarrow>
          (case info of
             None \<Rightarrow> Some (Inl (no_attribute (str ''get'')), fl1)
           | Some si \<Rightarrow>
               (case run_agent env executor
                       (step_prompt plan_status (current_step_index fl1) (si_text si)) fl1 of
                  None \<Rightarrow> None
                | Some (Inr step_result, fl2) \<Rightarrow> Some (Inr step_result, mark_step_completed env fl2)
                | Some (Inl e, fl2) \<Rightarrow>
                    Some (Inr (str ''Error executing step '' @ fmt_index (current_step_index fl2)
                               @ str '': '' @ str_exn e), fl2))))"

text \<open>
  \<open>_finalize_plan\<close>: the summary comes from the LLM, from the primary agent when the LLM
  call raises, and is a fixed sentence when that raises too.
\<close>

definition summary_request :: "pystr option \<Rightarrow> pystr" where
  "summary_request plan_text =
     str ''The plan has been completed. Here is the final plan status:'' @ [10, 10]
     @ fmt_opt plan_text @ [10, 10]
     @ str ''Please provide a summary of what was accomplished and any final thoughts.''"

definition summary_prompt :: "pystr option \<Rightarrow> pystr" where
  "summary_prompt plan_text =
     [10] @ str ''                The plan has been completed. Here is the final plan status:''
     @ [10, 10] @ str ''                '' @ fmt_opt plan_text @ [10, 10]
     @ str ''                Please provide a summary of what was accomplished and any final thoughts.''
     @ [10] @ str ''                ''"

definition finalize_plan :: "flow_env \<Rightarrow> PlanningFlow \<Rightarrow> (pystr \<times> PlanningFlow) option" where
  "finalize_plan env fl =
     (case get_plan_text env fl of
        (plan_text, fl1) \<Rightarrow>
          let fl2 = fl1\<lparr>clock := clock fl1 + 1\<rparr> in
          case llm_ask env (clock fl1) (summary_request plan_text) of
            Inr response \<Rightarrow> Some (str ''Plan completed:'' @ [10, 10] @ response, fl2)
          | Inl e \<Rightarrow>
              (case run_agent env
                      (if primary_agent fl2 = None then None else primary_agent_key fl2)
                      (summary_prompt plan_text) fl2 of
                 None \<Rightarrow> None
               | Some (Inr summary, fl3) \<Rightarrow>
                   Some (str ''Plan completed:'' @ [10, 10] @ summary, fl3)
               | Some (Inl e2, fl3) \<Rightarrow>
                   Some (str ''Plan completed. Error generating summary.'', fl3)))"

text \<open>\<open>args["plan_id"] = plan_id\<close> on a dict.\<close>

definition dict_set :: "pystr \<Rightarrow> json \<Rightarrow> (pystr \<times> json) list \<Rightarrow> (pystr \<times> json) list" where
  "dict_set k v kvs =
     (if k \<in> fst ` set kvs then map (\<lambda>(k', v'). if k' = k then (k', v) else (k', v')) kvs
      else kvs @ [(k, v)])"

text \<open>
  The loop over the tool calls of \<open>_create_initial_plan\<close>. The result is \<open>None\<close> when no
  call created the plan, and otherwise the exception raised, if any, by the first
  \<open>planning\<close> call whose arguments could be decoded.
\<close>

fun create_from_tool_calls ::
  "flow_env \<Rightarrow> response_tool_call list \<Rightarrow> PlanningFlow \<Rightarrow> (exn option) option \<times> PlanningFlow" where
  "create_from_tool_calls env [] fl = (None, fl)"
| "create_from_tool_calls env (tool_call # rest) fl =
     (if call_name tool_call = str ''planning'' then
        (case (case call_arguments tool_call of
                 ArgsDict kvs \<Rightarrow> Some (JDict kvs)
               | ArgsStr s \<Rightarrow> json_loads env s) of
           None \<Rightarrow> create_from_tool_calls env rest fl
         | Some (JDict kvs) \<Rightarrow>
             (case call_tool env (dict_set (str ''plan_id'') (JStr (active_plan_id fl)) kvs) fl of
                (Inl e, fl') \<Rightarrow> (Some (Some e), fl')
              | (Inr res, fl') \<Rightarrow> (Some None, fl'))
         | Some other \<Rightarrow>
             (Some (Some (Exn TypeError (str ''object does not support item assignment''))), fl))
      else create_from_tool_calls env rest fl)"

text \<open>
  \<open>_create_initial_plan\<close>: the result is the exception it raises, if any. The exceptions of
  the LLM call and of the planning tool are not caught here.
\<close>

definition create_initial_plan ::
  "flow_env \<Rightarrow> pystr \<Rightarrow> PlanningFlow \<Rightarrow> exn option \<times> PlanningFlow" where
  "create_initial_plan env request fl =
     (let fl1 = fl\<lparr>clock := clock fl + 1\<rparr> in
      case llm_ask_tool env (clock fl)
             (str ''Create a reasonable plan with clear steps to accomplish the task: '' @ request) of
        Inl e \<Rightarrow> (Some e, fl1)
      | Inr None \<Rightarrow> (Some (no_attribute (str ''tool_calls'')), fl1)
      | Inr (Some response) \<Rightarrow>
          (case create_from_tool_calls env (cm_tool_calls response) fl1 of
             (Some r, fl2) \<Rightarrow> (r, fl2)
           | (None, fl2) \<Rightarrow>
               (case call_tool env
                       [(str ''command'', JStr (str ''create'')),
                        (str ''plan_id'', JStr (active_plan_id fl2)),
                        (str ''title'', JStr (str ''Plan for: '' @ take 50 request
                                              @ (if length request > 50 then str ''...'' else []))),
                        (str ''steps'', JList [JStr (str ''Analyze request''),
                                               JStr (str ''Execute task''),
                                               JStr (str ''Verify results'')])] fl2 of
                  (Inl e, fl3) \<Rightarrow> (Some e, fl3)
                | (Inr res, fl3) \<Rightarrow> (None, fl3))))"

text \<open>
  The \<open>while True\<close> loop of \<open>execute\<close>. It ends when no step is current or when the executor
  is left in state \<open>FINISHED\<close>; it need not end.
\<close>

partial_function (option) execute_loop ::
  "flow_env \<Rightarrow> PlanningFlow \<Rightarrow> pystr \<Rightarrow> ((exn + pystr) \<times> PlanningFlow) option" where
  "execute_loop env fl result =
     (case get_current_step_info env fl of
        ((idx, info), fl1) \<Rightarrow>
          let fl2 = fl1\<lparr>current_step_index := idx\<rparr> in
          case idx of
            None \<Rightarrow>
              (case finalize_plan env fl2 of
                 None \<Rightarrow> None
               | Some (summary, fl3) \<Rightarrow> Some (Inr (result @ summary), fl3))
          | Some i \<Rightarrow>
              let step_type = (case info of None \<Rightarrow> None | Some si \<Rightarrow> si_type si);
                  executor = get_executor fl2 step_type
              in case execute_step env executor info fl2 of
                   None \<Rightarrow> None
                 | Some (Inl e, fl3) \<Rightarrow> Some (Inl e, fl3)
                 | Some (Inr step_result, fl3) \<Rightarrow>
                     let result' = result @ step_result @ [10] in
                     if (case executor of
                           None \<Rightarrow> False
                         | Some k \<Rightarrow> (case agents fl3 k of
                                        None \<Rightarrow> False
                                      | Some agent \<Rightarrow> state agent = FINISHED))
                     then Some (Inr result', fl3)
                     else execute_loop env fl3 result')"

declare execute_loop.simps [code]

text \<open>
  The body of the \<open>try\<close> block of \<open>execute\<close>, and \<open>execute\<close>: the \<open>except Exception\<close> clause
  around the whole body turns every exception into a returned text.
\<close>

definition execute_body ::
  "flow_env \<Rightarrow> pystr \<Rightarrow> PlanningFlow \<Rightarrow> ((exn + pystr) \<times> PlanningFlow) option" where
  "execute_body env input_text fl =
     (if primary_agent fl = None then
        Some (Inl (Exn ValueError (str ''No primary agent available'')), fl)
      else
        case (if input_text \<noteq> [] then create_initial_plan env input_text fl else (None, fl)) of
          (Some e, fl1) \<Rightarrow> Some (Inl e, fl1)
        | (None, fl1) \<Rightarrow>
            if input_text \<noteq> [] \<and> plans fl1 (active_plan_id fl1) = None
            then Some (Inr (str ''Failed to create plan for: '' @ input_text), fl1)
            else execute_loop env fl1 [])"

definition execute ::
  "flow_env \<Rightarrow> pystr \<Rightarrow> PlanningFlow \<Rightarrow> ((exn + pystr) \<times> PlanningFlow) option" where
  "execute env input_text fl =
     (case execute_body env input_text fl of
        None \<Rightarrow> None
      | Some (Inr result, fl') \<Rightarrow> Some (Inr result, fl')
      | Some (Inl e, fl') \<Rightarrow> Some (Inr (str ''Execution failed: '' @ str_exn e), fl'))"

subsection \<open>A concrete plan and flow\<close>

definition plan_abc :: plan_data where
  "plan_abc =
     \<lparr>p_title = Some (str ''Demo''),
      p_steps = Some [str ''a'', str ''b'', str ''c''],
      p_step_statuses = Some [status_value COMPLETED, status_value IN_PROGRESS,
                              status_value NOT_STARTED],
      p_step_notes = Some [[], [], []]\<rparr>"

text \<open>Collaborators that all fail: the tool and the LLM raise, no text parses as JSON.\<close>

definition failing_env :: flow_env where
  "failing_env =
     \<lparr>tool_execute = (\<lambda>n kwargs store. Inl (Exn OtherException (str ''tool unavailable''))),
      llm_ask_tool = (\<lambda>n request. Inl (Exn OpenAIError (str ''unreachable''))),
      llm_ask = (\<lambda>n request. Inl (Exn OpenAIError (str ''unreachable''))),
      json_loads = (\<lambda>s. None),
      agent_step = (\<lambda>key. step_raises),
      sandbox_cleanup = (\<lambda>n. None)\<rparr>"

definition flow_abc :: PlanningFlow where
  "flow_abc =
     \<lparr>agents = (\<lambda>key. if key = str ''manus'' then Some (idle_agent 10 2) else None),
      primary_agent_key = Some (str ''manus''),
      executor_keys = [str ''manus''],
      active_plan_id = str ''plan_1'',
      current_step_index = None,
      plans = (\<lambda>k. if k = str ''plan_1'' then Some plan_abc else None),
      clock = 0\<rparr>"

section \<open>Properties of the agent's step loop\<close>

subsection \<open>Stuck detection\<close>

text \<open>
  The code counts by filtering the reversed list of the messages before the last one;
  that is the number of positions before the last whose message passes the test.
\<close>

lemma count_by_position:
  "length (filter P (rev (butlast xs)))
   = length (filter (\<lambda>i. P (xs ! i)) [0..<length xs - 1])"
proof -
  have "butlast xs = map (\<lambda>i. xs ! i) [0..<length xs - 1]"
    by (rule nth_equalityI) (simp_all add: nth_butlast)
  then have "filter P (butlast xs) = filter P (map (\<lambda>i. xs ! i) [0..<length xs - 1])"
    by simp
  then have "length (filter P (butlast xs)) = length (filter (\<lambda>i. P (xs ! i)) [0..<length xs - 1])"
    by (simp add: filter_map comp_def)
  moreover have "length (filter P (rev (butlast xs))) = length (filter P (butlast xs))"
    by (simp add: rev_filter[symmetric])
  ultimately show ?thesis by simp
qed

lemma duplicate_count_by_position:
  "xs \<noteq> [] \<Longrightarrow> duplicate_count (butlast xs) (last xs) = int (prior_assistant_duplicates xs)"
  unfolding duplicate_count_def prior_assistant_duplicates_def
  by (simp add: count_by_position last_conv_nth)

text \<open>
  C5 (as stated): \<open>is_stuck\<close> is true exactly when the last message has content and the
  count of earlier assistant messages with the same content is at least
  \<open>duplicate_threshold\<close>. The code first returns False for fewer than two messages, so
  with threshold 0 and a single message the stated condition holds and \<open>is_stuck\<close> is
  False.
\<close>

theorem is_stuck_single_message_counterexample:
  "is_stuck ((idle_agent 10 0)\<lparr>memory := [assistant_message (str ''ok'')]\<rparr>)
     \<noteq> is_stuck_as_claimed ((idle_agent 10 0)\<lparr>memory := [assistant_message (str ''ok'')]\<rparr>)"
  by (simp add: is_stuck_def is_stuck_as_claimed_def idle_agent_def assistant_message_def
      prior_assistant_duplicates_def str_def)

text \<open>
  C5 (amended): \<open>is_stuck\<close> is true exactly when Memory holds at least two messages, the
  last one has content, and the number of positions before the last whose message has
  role assistant and content equal to the last message's content is at least
  \<open>duplicate_threshold\<close>. With threshold 2: three assistant messages with the same
  non-empty content are stuck and two are not; earlier messages of role user or tool with
  that content are not counted; earlier assistant messages with another content are not
  counted; and the two earlier duplicates need not be adjacent to the last message.
\<close>

theorem is_stuck_iff:
  "(is_stuck self \<longleftrightarrow>
      (2 \<le> length (memory self)
       \<and> content (memory self ! (length (memory self) - 1)) \<noteq> None
       \<and> content (memory self ! (length (memory self) - 1)) \<noteq> Some []
       \<and> duplicate_threshold self \<le> int (prior_assistant_duplicates (memory self))))
   \<and> is_stuck (self\<lparr>duplicate_threshold := 2,
         memory := [text_message Assistant (c # cs), text_message Assistant (c # cs),
                    text_message Assistant (c # cs)]\<rparr>)
   \<and> \<not> is_stuck (self\<lparr>duplicate_threshold := 2,
         memory := [text_message Assistant (c # cs), text_message Assistant (c # cs)]\<rparr>)
   \<and> \<not> is_stuck (self\<lparr>duplicate_threshold := 2,
         memory := [text_message User (c # cs), text_message Tool (c # cs),
                    text_message Assistant (c # cs)]\<rparr>)
   \<and> \<not> is_stuck (self\<lparr>duplicate_threshold := 2,
         memory := [text_message Assistant (Suc c # cs), text_message Assistant (Suc c # cs),
                    text_message Assistant (c # cs)]\<rparr>)
   \<and> is_stuck (self\<lparr>duplicate_threshold := 2,
         memory := [text_message Assistant (c # cs), text_message User d,
                    text_message Assistant (c # cs), text_message Tool e,
                    text_message Assistant (c # cs)]\<rparr>)"
proof -
  have "is_stuck self \<longleftrightarrow>
      (2 \<le> length (memory self)
       \<and> content (memory self ! (length (memory self) - 1)) \<noteq> None
       \<and> content (memory self ! (length (memory self) - 1)) \<noteq> Some []
       \<and> duplicate_threshold self \<le> int (prior_assistant_duplicates (memory self)))"
  proof (cases "length (memory self) < 2")
    case True
    then show ?thesis by (simp add: is_stuck_def)
  next
    case False
    then have ne: "memory self \<noteq> []" by auto
    have l: "last (memory self) = memory self ! (length (memory self) - 1)"
      by (rule last_conv_nth[OF ne])
    have dc: "duplicate_count (butlast (memory self)) (memory self ! (length (memory self) - 1))
                = int (prior_assistant_duplicates (memory self))"
      using duplicate_count_by_position[OF ne] l by simp
    show ?thesis using False unfolding is_stuck_def Let_def l dc by auto
  qed
  moreover have "is_stuck (self\<lparr>duplicate_threshold := 2,
         memory := [text_message Assistant (c # cs), text_message Assistant (c # cs),
                    text_message Assistant (c # cs)]\<rparr>)"
    by (simp add: is_stuck_def Let_def duplicate_count_def text_message_def)
  moreover have "\<not> is_stuck (self\<lparr>duplicate_threshold := 2,
         memory := [text_message Assistant (c # cs), text_message Assistant (c # cs)]\<rparr>)"
    by (simp add: is_stuck_def Let_def duplicate_count_def text_message_def)
  moreover have "\<not> is_stuck (self\<lparr>duplicate_threshold := 2,
         memory := [text_message User (c # cs), text_message Tool (c # cs),
                    text_message Assistant (c # cs)]\<rparr>)"
    by (simp add: is_stuck_def Let_def duplicate_count_def text_message_def)
  moreover have "\<not> is_stuck (self\<lparr>duplicate_threshold := 2,
         memory := [text_message Assistant (Suc c # cs), text_message Assistant (Suc c # cs),
                    text_message Assistant (c # cs)]\<rparr>)"
    by (simp add: is_stuck_def Let_def duplicate_count_def text_message_def)
  moreover have "is_stuck (self\<lparr>duplicate_threshold := 2,
         memory := [text_message Assistant (c # cs), text_message User d,
                    text_message Assistant (c # cs), text_message Tool e,
                    text_message Assistant (c # cs)]\<rparr>)"
    by (simp add: is_stuck_def Let_def duplicate_count_def text_message_def)
  ultimately show ?thesis by blast
qed

subsection \<open>The loop ends and keeps the counter below the cap\<close>

text \<open>
  When \<open>step\<close> leaves the two counters alone, the loop ends, the counter stays at most
  the cap, and a loop that ends without an exception in a state other than FINISHED has
  its counter at the cap.
\<close>

lemma run_loop_total:
  assumes frame: "\<forall>a. current_step (snd (step a)) = current_step a
                      \<and> max_steps (snd (step a)) = max_steps a"
  shows "current_step self \<le> max_steps self \<Longrightarrow>
     \<exists>r self' tr. run_loop step self results snaps = Some (r, self', snaps @ tr)
        \<and> (\<forall>s\<in>set tr. current_step s \<le> max_steps s)
        \<and> current_step self' \<le> max_steps self' \<and> max_steps self' = max_steps self
        \<and> (\<forall>rs. r = Inr rs \<and> state self' \<noteq> FINISHED \<longrightarrow> max_steps self' \<le> current_step self')"
proof (induction "nat (max_steps self - current_step self)" arbitrary: self results snaps)
  case 0
  then have "\<not> current_step self < max_steps self" by simp
  then show ?case using 0 by (subst run_loop.simps) simp
next
  case (Suc n)
  show ?case
  proof (cases "current_step self < max_steps self \<and> state self \<noteq> FINISHED")
    case False
    then show ?thesis using Suc.prems by (subst run_loop.simps) auto
  next
    case True
    define self1 where "self1 = self\<lparr>current_step := current_step self + 1\<rparr>"
    obtain r self2 where st: "step self1 = (r, self2)" by (cases "step self1")
    from frame have fr: "current_step self2 = current_step self1" "max_steps self2 = max_steps self1"
      using st by (metis snd_conv)+
    have b1: "current_step self1 \<le> max_steps self1" "max_steps self1 = max_steps self"
      using True by (simp_all add: self1_def)
    show ?thesis
    proof (cases r)
      case (Inl e)
      then show ?thesis using True st fr b1
        by (subst run_loop.simps) (simp add: self1_def[symmetric] Let_def)
    next
      case (Inr step_result)
      define self3 where "self3 = (if is_stuck self2 then handle_stuck_state self2 else self2)"
      define results' where
        "results' = results @ [str ''Step '' @ str_int (current_step self3) @ str '': '' @ step_result]"
      have f3: "current_step self3 = current_step self1" "max_steps self3 = max_steps self1"
        using fr by (simp_all add: self3_def handle_stuck_state_def)
      have m: "n = nat (max_steps self3 - current_step self3)"
        using Suc.hyps(2) f3 b1 by (simp add: self1_def)
      have le: "current_step self3 \<le> max_steps self3" using f3 b1 by simp
      from Suc.hyps(1)[OF m le, of results' "snaps @ [self1, self2, self3]"]
      obtain r' self' tr where
        rl: "run_loop step self3 results' (snaps @ [self1, self2, self3])
               = Some (r', self', (snaps @ [self1, self2, self3]) @ tr)"
        and inv: "\<forall>s\<in>set tr. current_step s \<le> max_steps s"
        and fin: "current_step self' \<le> max_steps self'" "max_steps self' = max_steps self3"
        and ex: "\<forall>rs. r' = Inr rs \<and> state self' \<noteq> FINISHED \<longrightarrow> max_steps self' \<le> current_step self'"
        by blast
      have "run_loop step self results snaps = Some (r', self', snaps @ ([self1, self2, self3] @ tr))"
        using True st Inr rl
        by (subst run_loop.simps)
           (simp add: self1_def[symmetric] self3_def[symmetric] results'_def[symmetric] Let_def)
      moreover have "\<forall>s\<in>set ([self1, self2, self3] @ tr). current_step s \<le> max_steps s"
        using inv fr f3 b1 by auto
      ultimately show ?thesis using fin f3 b1 ex
        by (intro exI[of _ r'] exI[of _ self'] exI[of _ "[self1, self2, self3] @ tr"]) simp
    qed
  qed
qed

text \<open>
  Whatever \<open>step\<close> does: when the loop ends without an exception with the counter at or
  above the cap, \<open>run\<close> resets the counter, leaves the state IDLE, appends the
  termination notice and returns the joined results, unless the sandbox cleanup raises.
\<close>

lemma run_cap_exit:
  assumes idle: "state self = IDLE"
    and loop: "run_loop step ((add_request request self)\<lparr>state := RUNNING\<rparr>) [] []
                 = Some (Inr results, self', snaps)"
    and capx: "max_steps self' \<le> current_step self'"
  shows "\<exists>r. run step cleanup request self = Some r
      \<and> current_step (agent_after r) = 0 \<and> state (agent_after r) = IDLE
      \<and> outcome r = (case cleanup of
            Some e \<Rightarrow> Inl e
          | None \<Rightarrow> Inr (join [10] (results @
               [str ''Terminated: Reached max steps ('' @ str_int (max_steps self') @ str '')''])))"
proof -
  have s0: "state (add_request request self) = IDLE"
    using idle by (auto simp add: add_request_def update_memory_def split: option.splits sum.splits)
  show ?thesis using idle s0 loop capx
    by (cases cleanup) (simp_all add: run_def state_context_def run_body_def Let_def)
qed

lemma run_framed:
  assumes idle: "state self = IDLE" and zero: "current_step self = 0"
    and cap: "0 \<le> max_steps self"
    and frame: "\<forall>a. current_step (snd (step a)) = current_step a
                      \<and> max_steps (snd (step a)) = max_steps a"
  shows "\<exists>r res self' snaps.
        run step cleanup request self = Some r
      \<and> (\<forall>s\<in>set (snapshots r). current_step s \<le> max_steps s)
      \<and> run_loop step ((add_request request self)\<lparr>state := RUNNING\<rparr>) [] []
           = Some (res, self', snaps)
      \<and> (\<forall>rs. res = Inr rs \<and> state self' \<noteq> FINISHED \<longrightarrow> max_steps self' \<le> current_step self')"
proof -
  define self0 where "self0 = add_request request self"
  have s0: "current_step self0 = 0" "max_steps self0 = max_steps self" "state self0 = IDLE"
    using idle zero
    by (auto simp add: self0_def add_request_def update_memory_def split: option.splits sum.splits)
  define self1 where "self1 = self0\<lparr>state := RUNNING\<rparr>"
  have s1: "current_step self1 \<le> max_steps self1"
    using s0 cap by (simp_all add: self1_def)
  from run_loop_total[OF frame s1, of "[]" "[]"]
  obtain res self2 tr where rl: "run_loop step self1 [] [] = Some (res, self2, tr)"
    and inv: "\<forall>s\<in>set tr. current_step s \<le> max_steps s"
    and fin: "current_step self2 \<le> max_steps self2" "max_steps self2 = max_steps self1"
    and ex: "\<forall>rs. res = Inr rs \<and> state self2 \<noteq> FINISHED \<longrightarrow> max_steps self2 \<le> current_step self2"
    unfolding append_Nil by blast
  have m1: "0 \<le> max_steps self2" using fin s0 cap by (simp add: self1_def)
  have "\<exists>r. run step cleanup request self = Some r
      \<and> (\<forall>s\<in>set (snapshots r). current_step s \<le> max_steps s)"
  proof (cases res)
    case (Inl e)
    then show ?thesis using rl inv fin idle zero cap s0 s1
      by (simp add: run_def self0_def[symmetric] state_context_def self1_def[symmetric]
          run_body_def Let_def)
  next
    case (Inr rs)
    then show ?thesis using rl inv fin m1 idle zero cap s0 s1
      by (cases cleanup)
         (simp_all add: run_def self0_def[symmetric] state_context_def self1_def[symmetric]
          run_body_def Let_def)
  qed
  then show ?thesis using rl ex unfolding self1_def self0_def by blast
qed

text \<open>
  C1 (as stated): for every agent run from IDLE with \<open>current_step = 0\<close>, the counter never
  exceeds \<open>max_steps\<close>, and when the step cap ends the loop \<open>run\<close> returns normally with
  the counter reset. Three runs where this fails: with \<open>max_steps = -1\<close> the loop is not
  entered and the counter is 0, above the cap, at every point of the run; with a \<open>step\<close>
  that itself adds 5 to \<open>current_step\<close> and \<open>max_steps = 2\<close> the counter is 6 after the
  first step; and when the sandbox cleanup raises after the cap ended the loop, \<open>run\<close>
  raises that exception instead of returning.
\<close>

theorem run_step_cap_counterexample:
  "map_option (\<lambda>r. map (\<lambda>s. (current_step s, max_steps s)) (snapshots r))
     (run step_ok None None (idle_agent (- 1) 2))
   = Some [(0, - 1), (0, - 1), (0, - 1), (0, - 1), (0, - 1)]
   \<and> map_option (\<lambda>r. map (\<lambda>s. (current_step s, max_steps s)) (snapshots r))
        (run step_jumps None None (idle_agent 2 2))
     = Some [(0, 2), (0, 2), (0, 2), (1, 2), (6, 2), (6, 2), (0, 2), (0, 2)]
   \<and> map_option (\<lambda>r. (outcome r, current_step (agent_after r), state (agent_after r)))
        (run step_ok (Some (Exn OtherException (str ''cleanup failed''))) None (idle_agent 2 2))
     = Some (Inl (Exn OtherException (str ''cleanup failed'')), 0, IDLE)"
proof (intro conjI)
  show "map_option (\<lambda>r. map (\<lambda>s. (current_step s, max_steps s)) (snapshots r))
     (run step_ok None None (idle_agent (- 1) 2))
   = Some [(0, - 1), (0, - 1), (0, - 1), (0, - 1), (0, - 1)]"
    by (simp add: run_def add_request_def state_context_def run_body_def run_loop.simps
        step_ok_def idle_agent_def Let_def)
  show "map_option (\<lambda>r. map (\<lambda>s. (current_step s, max_steps s)) (snapshots r))
        (run step_jumps None None (idle_agent 2 2))
     = Some [(0, 2), (0, 2), (0, 2), (1, 2), (6, 2), (6, 2), (0, 2), (0, 2)]"
    by (simp add: run_def add_request_def state_context_def run_body_def run_loop.simps
        step_jumps_def idle_agent_def Let_def is_stuck_def)
  show "map_option (\<lambda>r. (outcome r, current_step (agent_after r), state (agent_after r)))
        (run step_ok (Some (Exn OtherException (str ''cleanup failed''))) None (idle_agent 2 2))
     = Some (Inl (Exn OtherException (str ''cleanup failed'')), 0, IDLE)"
    by (simp add: run_def add_request_def state_context_def run_body_def run_loop.simps
        step_ok_def idle_agent_def Let_def is_stuck_def handle_stuck_state_def
        assistant_message_def duplicate_count_def str_def)
qed

text \<open>
  C1 (amended): for every agent run from IDLE, with any \<open>step\<close>: whenever the loop ends
  without an exception and with \<open>current_step \<ge> max_steps\<close>, \<open>run\<close> ends with
  \<open>current_step = 0\<close> and state IDLE, and it returns the results joined with the
  termination notice unless the sandbox cleanup raises, in which case it raises that
  exception. If moreover \<open>current_step = 0\<close> at the start, \<open>max_steps \<ge> 0\<close> and \<open>step\<close>
  leaves \<open>current_step\<close> and \<open>max_steps\<close> as it found them, then \<open>run\<close> ends, the counter
  is at most \<open>max_steps\<close> at every point of the run, and a loop that ends without an
  exception in a state other than FINISHED ends with \<open>current_step \<ge> max_steps\<close>, which
  is the case of the reset.
\<close>

theorem run_step_cap:
  assumes idle: "state self = IDLE"
  shows "(\<forall>results self' snaps.
            run_loop step ((add_request request self)\<lparr>state := RUNNING\<rparr>) [] []
              = Some (Inr results, self', snaps)
            \<and> max_steps self' \<le> current_step self' \<longrightarrow>
            (\<exists>r. run step cleanup request self = Some r
               \<and> current_step (agent_after r) = 0 \<and> state (agent_after r) = IDLE
               \<and> outcome r = (case cleanup of
                     Some e \<Rightarrow> Inl e
                   | None \<Rightarrow> Inr (join [10] (results @
                        [str ''Terminated: Reached max steps ('' @ str_int (max_steps self')
                         @ str '')''])))))
       \<and> (current_step self = 0 \<and> 0 \<le> max_steps self
          \<and> (\<forall>a. current_step (snd (step a)) = current_step a
                  \<and> max_steps (snd (step a)) = max_steps a) \<longrightarrow>
          (\<exists>r res self' snaps.
              run step cleanup request self = Some r
            \<and> (\<forall>s\<in>set (snapshots r). current_step s \<le> max_steps s)
            \<and> run_loop step ((add_request request self)\<lparr>state := RUNNING\<rparr>) [] []
                 = Some (res, self', snaps)
            \<and> (\<forall>rs. res = Inr rs \<and> state self' \<noteq> FINISHED
                    \<longrightarrow> max_steps self' \<le> current_step self')))"
proof (intro conjI allI impI)
  fix results self' snaps
  assume "run_loop step ((add_request request self)\<lparr>state := RUNNING\<rparr>) [] []
              = Some (Inr results, self', snaps)
            \<and> max_steps self' \<le> current_step self'"
  then show "\<exists>r. run step cleanup request self = Some r
               \<and> current_step (agent_after r) = 0 \<and> state (agent_after r) = IDLE
               \<and> outcome r = (case cleanup of
                     Some e \<Rightarrow> Inl e
                   | None \<Rightarrow> Inr (join [10] (results @
                        [str ''Terminated: Reached max steps ('' @ str_int (max_steps self')
                         @ str '')''])))"
    using run_cap_exit[OF idle, of step request results self' snaps cleanup] by blast
next
  assume "current_step self = 0 \<and> 0 \<le> max_steps self
          \<and> (\<forall>a. current_step (snd (step a)) = current_step a
                  \<and> max_steps (snd (step a)) = max_steps a)"
  then show "\<exists>r res self' snaps.
              run step cleanup request self = Some r
            \<and> (\<forall>s\<in>set (snapshots r). current_step s \<le> max_steps s)
            \<and> run_loop step ((add_request request self)\<lparr>state := RUNNING\<rparr>) [] []
                 = Some (res, self', snaps)
            \<and> (\<forall>rs. res = Inr rs \<and> state self' \<noteq> FINISHED
                    \<longrightarrow> max_steps self' \<le> current_step self')"
    using run_framed[OF idle, of step cleanup request] by blast
qed

lemma run_two_steps:
  "map_option (\<lambda>r. (outcome r, cap_reached r, current_step (agent_after r),
                      state (agent_after r), cleanup_calls r))
     (run step_ok None None (idle_agent 2 2))
   = Some (Inr (str ''Step 1: ok'' @ [10] @ str ''Step 2: ok'' @ [10]
                @ str ''Terminated: Reached max steps (2)''), True, 0, IDLE, 1)"
  by (simp add: run_def add_request_def state_context_def run_body_def run_loop.simps step_ok_def idle_agent_def
      Let_def is_stuck_def handle_stuck_state_def str_int_def str_nat.simps assistant_message_def
      duplicate_count_def str_def)

lemma run_loop_two_steps:
  "\<exists>self' snaps.
     run_loop step_ok ((add_request None (idle_agent 2 2))\<lparr>state := RUNNING\<rparr>) [] []
       = Some (Inr [str ''Step 1: ok'', str ''Step 2: ok''], self', snaps)
     \<and> max_steps self' = 2 \<and> current_step self' = 2"
  by (simp add: add_request_def run_loop.simps step_ok_def idle_agent_def
      Let_def is_stuck_def handle_stuck_state_def str_int_def str_nat.simps assistant_message_def
      duplicate_count_def str_def)

theorem run_step_cap_witness:
  "state (idle_agent 2 2) = IDLE \<and> current_step (idle_agent 2 2) = 0
   \<and> 0 \<le> max_steps (idle_agent 2 2)
   \<and> (\<forall>a. current_step (snd (step_ok a)) = current_step a
          \<and> max_steps (snd (step_ok a)) = max_steps a)
   \<and> (\<exists>self' snaps.
         run_loop step_ok ((add_request None (idle_agent 2 2))\<lparr>state := RUNNING\<rparr>) [] []
           = Some (Inr [str ''Step 1: ok'', str ''Step 2: ok''], self', snaps)
         \<and> max_steps self' = 2 \<and> current_step self' = 2)
   \<and> (\<exists>r. run step_ok None None (idle_agent 2 2) = Some r
         \<and> current_step (agent_after r) = 0 \<and> state (agent_after r) = IDLE
         \<and> outcome r = Inr (str ''Step 1: ok'' @ [10] @ str ''Step 2: ok'' @ [10]
                              @ str ''Terminated: Reached max steps (2)'')
         \<and> (\<forall>s\<in>set (snapshots r). current_step s \<le> max_steps s))"
proof -
  have h0: "state (idle_agent 2 2) = IDLE" by (simp add: idle_agent_def)
  have h1: "current_step (idle_agent 2 2) = 0 \<and> 0 \<le> max_steps (idle_agent 2 2)
     \<and> (\<forall>a. current_step (snd (step_ok a)) = current_step a
            \<and> max_steps (snd (step_ok a)) = max_steps a)"
    by (simp add: idle_agent_def step_ok_def)
  note t = run_step_cap[OF h0, of step_ok None None]
  from run_loop_two_steps obtain self' snaps where
    loop: "run_loop step_ok ((add_request None (idle_agent 2 2))\<lparr>state := RUNNING\<rparr>) [] []
             = Some (Inr [str ''Step 1: ok'', str ''Step 2: ok''], self', snaps)"
    and c: "max_steps self' = 2" "current_step self' = 2"
    by blast
  from t[THEN conjunct1, rule_format, of "[str ''Step 1: ok'', str ''Step 2: ok'']" self' snaps]
    loop c
  obtain r where r: "run step_ok None None (idle_agent 2 2) = Some r"
    and a: "current_step (agent_after r) = 0" "state (agent_after r) = IDLE"
    and o: "outcome r = Inr (join [10] ([str ''Step 1: ok'', str ''Step 2: ok''] @
                 [str ''Terminated: Reached max steps ('' @ str_int 2 @ str '')'']))"
    by auto
  have o': "outcome r = Inr (str ''Step 1: ok'' @ [10] @ str ''Step 2: ok'' @ [10]
                              @ str ''Terminated: Reached max steps (2)'')"
    using o by (simp add: str_int_def str_nat.simps str_def)
  from t[THEN conjunct2, rule_format, OF h1] r
  have inv: "\<forall>s\<in>set (snapshots r). current_step s \<le> max_steps s" by auto
  show ?thesis using h0 h1 run_loop_two_steps r a o' inv by blast
qed

subsection \<open>The state after \<open>run\<close>\<close>

text \<open>
  C2: the claim says that an exception leaving \<open>run\<close> finds the agent in state ERROR. In
  the code the \<open>finally\<close> clause of \<open>state_context\<close> runs after the \<open>except\<close> clause and
  assigns the previous state again, so on every exit of \<open>run\<close> that returns or raises,
  the state is what it was before the call: IDLE, never ERROR.
\<close>

theorem run_state_after:
  "run step cleanup request self = Some r \<Longrightarrow> state (agent_after r) = state self"
  by (auto simp add: run_def add_request_def state_context_def Let_def update_memory_def
       split: if_splits option.splits sum.splits prod.splits)

lemma run_step_raises:
  "map_option (\<lambda>r. (outcome r, state (agent_after r), cleanup_calls r))
     (run step_raises None None (idle_agent 10 2))
   = Some (Inl (Exn OtherException (str ''boom'')), IDLE, 0)"
  by (simp add: run_def add_request_def state_context_def run_body_def run_loop.simps
      step_raises_def idle_agent_def Let_def)

theorem run_state_after_witness:
  "\<exists>r. run step_raises None None (idle_agent 10 2) = Some r
       \<and> outcome r = Inl (Exn OtherException (str ''boom''))
       \<and> state (agent_after r) = IDLE \<and> state (agent_after r) \<noteq> ERROR"
proof -
  from run_step_raises obtain r where r: "run step_raises None None (idle_agent 10 2) = Some r"
    and o: "outcome r = Inl (Exn OtherException (str ''boom''))"
    by auto
  from run_state_after[OF r] have "state (agent_after r) = IDLE"
    by (simp add: idle_agent_def)
  then show ?thesis using r o by auto
qed

subsection \<open>Sandbox cleanup\<close>

text \<open>
  C6 (as stated): cleanup is invoked exactly once per \<open>run\<close> call on every exit path,
  exceptions included. When \<open>step\<close> raises, \<open>run\<close> raises and cleanup has not been called.
\<close>

theorem run_cleanup_skipped_counterexample:
  "map_option (\<lambda>r. (outcome r, cleanup_calls r)) (run step_raises None None (idle_agent 10 2))
   = Some (Inl (Exn OtherException (str ''boom'')), 0)"
  by (simp add: run_def add_request_def state_context_def run_body_def run_loop.simps
      step_raises_def idle_agent_def Let_def)

text \<open>
  C6 (amended): \<open>run\<close> invokes the sandbox cleanup at most once per call; it invokes it
  exactly once whenever it returns normally, and not at all when the state precondition
  fails.
\<close>

theorem run_cleanup_calls:
  "run step cleanup request self = Some r \<Longrightarrow>
     cleanup_calls r \<le> 1
     \<and> (state self \<noteq> IDLE \<longrightarrow> cleanup_calls r = 0)
     \<and> ((\<exists>text. outcome r = Inr text) \<longrightarrow> cleanup_calls r = 1)"
  by (auto simp add: run_def add_request_def state_context_def Let_def
       split: if_splits option.splits sum.splits prod.splits)

theorem run_cleanup_calls_witness:
  "\<exists>r. run step_ok None None (idle_agent 2 2) = Some r
       \<and> (\<exists>text. outcome r = Inr text) \<and> cleanup_calls r = 1"
proof -
  from run_two_steps obtain r where r: "run step_ok None None (idle_agent 2 2) = Some r"
    and o: "\<exists>text. outcome r = Inr text"
    by auto
  from run_cleanup_calls[OF r] o have "cleanup_calls r = 1" by simp
  then show ?thesis using r o by blast
qed

section \<open>Properties of the float model\<close>

text \<open>
  The bit length brackets its argument; the exponent chosen by \<open>round_double\<close> bounds the
  quotient from above, so every rounded value has a significand of at most \<open>2 ^ 53\<close>; and
  on the integers that occur as image sides the operations raise no exception and the
  tile count is an exact ceiling.
\<close>

lemma bitlen_pos: "0 < a \<Longrightarrow> 0 < bitlen a"
  by (subst bitlen.simps) simp

lemma bitlen_bounds: "0 < a \<Longrightarrow> 2 ^ (bitlen a - 1) \<le> a \<and> a < 2 ^ bitlen a"
proof (induction a rule: bitlen.induct)
  case (1 n)
  show ?case
  proof (cases "n div 2 = 0")
    case True
    then have n1: "n = 1" using 1(2) by presburger
    have "bitlen n = Suc 0" by (subst bitlen.simps, subst bitlen.simps) (simp add: n1)
    then show ?thesis using n1 by simp
  next
    case False
    then have pos: "0 < n div 2" using 1(2) by presburger
    from 1(1)[OF _ pos] 1(2) have ih: "2 ^ (bitlen (n div 2) - 1) \<le> n div 2" "n div 2 < 2 ^ bitlen (n div 2)"
      by simp_all
    have k: "0 < bitlen (n div 2)" by (rule bitlen_pos[OF pos])
    have b: "bitlen n = Suc (bitlen (n div 2))" using 1(2) by (subst bitlen.simps) simp
    have "2 ^ bitlen (n div 2) = 2 * (2::int) ^ (bitlen (n div 2) - 1)"
      using k by (cases "bitlen (n div 2)") simp_all
    then have lo: "2 ^ bitlen (n div 2) \<le> n" using ih(1) by presburger
    have hi: "n < 2 * 2 ^ bitlen (n div 2)" using ih(2) by presburger
    show ?thesis using lo hi b by simp
  qed
qed

lemma bitlen_le: "0 < a \<Longrightarrow> a < 2 ^ k \<Longrightarrow> bitlen a \<le> k"
proof (rule ccontr)
  assume a: "0 < a" "a < 2 ^ k" and "\<not> bitlen a \<le> k"
  then have "k \<le> bitlen a - 1" by simp
  then have "(2::int) ^ k \<le> 2 ^ (bitlen a - 1)" by (rule power_increasing) simp
  then show False using bitlen_bounds[OF a(1)] a(2) by linarith
qed

lemma powi_nat: "0 \<le> e \<Longrightarrow> (2::rat) powi e = 2 ^ nat e"
  by (simp add: power_int_def)

lemma powi_neg: "e < 0 \<Longrightarrow> (2::rat) powi e = 1 / 2 ^ nat (- e)"
  by (simp add: power_int_def field_simps)

lemma valof_powi: "valof (Float m e) = of_int m * 2 powi e"
  by (cases "0 \<le> e") (simp_all add: valof_def powi_nat powi_neg)

text \<open>The comparison inside binary_exponent, read in the rationals.\<close>

lemma exponent_test:
  "(if 0 \<le> dd then d * 2 ^ nat dd \<le> a else d \<le> a * 2 ^ nat (- dd))
     \<longleftrightarrow> (of_int d * 2 powi dd \<le> (of_int a :: rat))"
proof (cases "0 \<le> dd")
  case True
  have "(of_int d * 2 ^ nat dd \<le> (of_int a :: rat)) \<longleftrightarrow> d * 2 ^ nat dd \<le> a"
    by (metis of_int_le_iff of_int_mult of_int_numeral of_int_power)
  then show ?thesis using True by (simp add: powi_nat)
next
  case False
  have "(of_int d \<le> (of_int a :: rat) * 2 ^ nat (- dd)) \<longleftrightarrow> d \<le> a * 2 ^ nat (- dd)"
    by (metis of_int_le_iff of_int_mult of_int_numeral of_int_power)
  then show ?thesis using False by (simp add: powi_neg field_simps)
qed

lemma binary_exponent_upper:
  assumes "0 < a" "0 < d"
  shows "(of_int a :: rat) < of_int d * 2 powi (binary_exponent a d + 1)"
    and "binary_exponent a d \<le> int (bitlen a) - int (bitlen d)"
proof -
  let ?dd = "int (bitlen a) - int (bitlen d)"
  have ba: "a < 2 ^ bitlen a" using bitlen_bounds[OF assms(1)] by simp
  have bd: "2 ^ (bitlen d - 1) \<le> d" using bitlen_bounds[OF assms(2)] by simp
  have pd: "0 < bitlen d" by (rule bitlen_pos[OF assms(2)])
  have "(of_int a :: rat) < 2 ^ bitlen a" using ba
    by (metis of_int_less_iff of_int_numeral of_int_power)
  also have "\<dots> = 2 powi (int (bitlen d) - 1) * 2 powi (?dd + 1)"
    by (simp add: power_int_add[symmetric])
  also have "\<dots> \<le> of_int d * 2 powi (?dd + 1)"
  proof -
    have "(2::rat) powi (int (bitlen d) - 1) = 2 ^ (bitlen d - 1)"
      using pd by (simp add: power_int_def nat_diff_distrib')
    also have "\<dots> \<le> of_int d" using bd
      by (metis of_int_le_iff of_int_numeral of_int_power)
    finally show ?thesis by (simp add: mult_right_mono)
  qed
  finally have up: "(of_int a :: rat) < of_int d * 2 powi (?dd + 1)" .
  show "(of_int a :: rat) < of_int d * 2 powi (binary_exponent a d + 1)"
    using up exponent_test[of ?dd d a]
    by (auto simp add: binary_exponent_def Let_def)
  show "binary_exponent a d \<le> ?dd"
    by (simp add: binary_exponent_def Let_def)
qed


lemma div_half_even_bounds:
  assumes "0 \<le> num" "0 < den"
  shows "num div den \<le> div_half_even num den" "div_half_even num den \<le> num div den + 1"
  by (simp_all add: div_half_even_def Let_def)

lemma div_lt_bound:
  fixes a den k :: int
  assumes "0 < den" "a < den * k"
  shows "a div den < k"
proof (rule ccontr)
  assume "\<not> a div den < k"
  then have "k \<le> a div den" by simp
  then have "den * k \<le> den * (a div den)" using assms(1) by (simp add: mult_left_mono)
  also have "\<dots> \<le> a" using assms(1)
    by (metis mult_div_mod_eq pos_mod_sign le_add_same_cancel1)
  finally show False using assms(2) by simp
qed

lemma scaled_quotient_bound:
  assumes "0 < a" "0 < d" and up: "(of_int a :: rat) < of_int d * 2 powi (s + 53)"
  shows "0 \<le> scaled_quotient a d s \<and> scaled_quotient a d s \<le> 2 ^ 53"
proof (cases "0 \<le> s")
  case True
  have "(2::rat) powi (s + 53) = 2 ^ nat s * 2 ^ 53"
    using True by (simp add: power_int_add powi_nat)
  then have "(of_int a :: rat) < of_int (d * 2 ^ nat s * 2 ^ 53)" using up by simp
  then have lt: "a < d * 2 ^ nat s * 2 ^ 53" by (simp only: of_int_less_iff)
  have den: "0 < d * 2 ^ nat s" using assms(2) by simp
  have "a div (d * 2 ^ nat s) < 2 ^ 53" by (rule div_lt_bound[OF den lt])
  moreover have "0 \<le> a div (d * 2 ^ nat s)" using assms(1) den by (simp add: pos_imp_zdiv_nonneg_iff)
  ultimately show ?thesis
    using True div_half_even_bounds[of a "d * 2 ^ nat s"] assms(1) den
    by (simp add: scaled_quotient_def)
next
  case False
  then have e: "(2::rat) powi (s + 53) * 2 ^ nat (- s) = 2 ^ 53"
    by (simp add: power_int_add powi_neg)
  have "(of_int a :: rat) * 2 ^ nat (- s) < of_int d * 2 powi (s + 53) * 2 ^ nat (- s)"
    using up by (simp add: mult_strict_right_mono)
  also have "\<dots> = of_int d * (2 powi (s + 53) * 2 ^ nat (- s))" by (simp only: mult.assoc)
  finally have "(of_int a :: rat) * 2 ^ nat (- s) < of_int d * 2 ^ 53"
    by (simp only: e)
  then have "(of_int (a * 2 ^ nat (- s)) :: rat) < of_int (d * 2 ^ 53)" by simp
  then have lt: "a * 2 ^ nat (- s) < d * 2 ^ 53" by (simp only: of_int_less_iff)
  have num: "0 \<le> a * 2 ^ nat (- s)" using assms(1) by simp
  have "a * 2 ^ nat (- s) div d < 2 ^ 53" by (rule div_lt_bound[OF assms(2) lt])
  moreover have "0 \<le> a * 2 ^ nat (- s) div d" using num assms(2) by (simp add: pos_imp_zdiv_nonneg_iff)
  ultimately show ?thesis
    using False div_half_even_bounds[of "a * 2 ^ nat (- s)" d] num assms(2)
    by (simp add: scaled_quotient_def)
qed

text \<open>Every rounded value has a significand of at most 53 bits and a known exponent.\<close>

lemma round_double_shape:
  assumes "n \<noteq> 0" "0 < d"
  obtains m where
    "round_double n d x = Float m (max (binary_exponent \<bar>n\<bar> d + x) (- 1022) - 52)"
    "\<bar>m\<bar> \<le> 2 ^ 53" "0 < n \<Longrightarrow> 0 \<le> m"
proof -
  let ?a = "\<bar>n\<bar>"
  let ?e = "max (binary_exponent ?a d + x) (- 1022) - 52"
  have a: "0 < ?a" using assms(1) by simp
  have "binary_exponent ?a d + 1 \<le> (?e - x) + 53" by simp
  then have "(2::rat) powi (binary_exponent ?a d + 1) \<le> 2 powi ((?e - x) + 53)"
    by (rule power_int_increasing) simp
  then have "(of_int d :: rat) * 2 powi (binary_exponent ?a d + 1) \<le> of_int d * 2 powi ((?e - x) + 53)"
    using assms(2) by (simp add: mult_left_mono)
  then have "(of_int ?a :: rat) < of_int d * 2 powi ((?e - x) + 53)"
    using binary_exponent_upper(1)[OF a assms(2)] by linarith
  from scaled_quotient_bound[OF a assms(2) this]
  have sq: "0 \<le> scaled_quotient ?a d (?e - x)" "scaled_quotient ?a d (?e - x) \<le> 2 ^ 53"
    by simp_all
  show ?thesis
  proof (rule that[of "if n < 0 then - scaled_quotient ?a d (?e - x) else scaled_quotient ?a d (?e - x)"])
    show "round_double n d x =
        Float (if n < 0 then - scaled_quotient ?a d (?e - x) else scaled_quotient ?a d (?e - x)) ?e"
      using assms(1) by (simp add: round_double_def Let_def)
    show "\<bar>if n < 0 then - scaled_quotient ?a d (?e - x) else scaled_quotient ?a d (?e - x)\<bar> \<le> 2 ^ 53"
      using sq by (cases "n < 0") (simp_all add: abs_if)
    show "0 \<le> (if n < 0 then - scaled_quotient ?a d (?e - x) else scaled_quotient ?a d (?e - x))"
      if "0 < n" using sq that by simp
  qed
qed


lemma bitlen_512: "bitlen 512 = 10" and bitlen_768: "bitlen 768 = 10" and bitlen_1: "bitlen 1 = 1"
  by (simp_all add: bitlen.simps)

lemma div_half_even_exact: "0 < den \<Longrightarrow> div_half_even (k * den) den = k"
  by (simp add: div_half_even_def Let_def)

text \<open>\<open>math.ceil(a / 512)\<close> is the exact ceiling for the integers a float holds exactly.\<close>

lemma ceil_div_512:
  assumes "0 \<le> a" "a < 2 ^ 53"
  shows "ceil_div a 512 = Inr (- ((- a) div 512))"
proof (cases "a = 0")
  case True
  then show ?thesis
    by (simp add: ceil_div_def truediv_def round_double_def fits_def ceil_def)
next
  case False
  then have pos: "0 < a" using assms(1) by simp
  define L where "L = bitlen a"
  have L1: "0 < L" unfolding L_def by (rule bitlen_pos[OF pos])
  have L53: "L \<le> 53" unfolding L_def by (rule bitlen_le[OF pos assms(2)])
  define j where "j = 53 - L"
  have Lj: "L = 53 - j" "j \<le> 52" using L1 L53 by (simp_all add: j_def)
  have lo: "2 ^ (L - 1) \<le> a" using bitlen_bounds[OF pos] by (simp add: L_def)
  have "(of_int (512::int) :: rat) * 2 powi (int L - 10) = 2 powi (int L - 1)"
    by (simp add: power_int_diff)
  also have "\<dots> = 2 ^ (L - 1)" using L1 by (simp add: power_int_def nat_diff_distrib')
  also have "\<dots> \<le> of_int a" using lo by (metis of_int_le_iff of_int_numeral of_int_power)
  finally have "(of_int (512::int) :: rat) * 2 powi (int L - 10) \<le> of_int a" .
  then have be: "binary_exponent a 512 = int L - 10"
    using exponent_test[of "int L - 10" 512 a]
    by (simp add: binary_exponent_def bitlen_512 L_def[symmetric] Let_def)
  have e: "max (binary_exponent a 512 + 0) (- 1022) - 52 = - (9 + int j)"
    using be Lj by simp
  have pw: "(2::int) ^ (j + 9) = 2 ^ j * 512" by (simp add: power_add)
  have sq: "scaled_quotient a 512 (- (9 + int j)) = a * 2 ^ j"
    using div_half_even_exact[of 512 "a * 2 ^ j"]
    by (simp add: scaled_quotient_def nat_add_distrib pw mult.assoc)
  have rd: "round_double a 512 0 = Float (a * 2 ^ j) (- (9 + int j))"
    using pos e sq by (simp add: round_double_def Let_def)
  have dv: "(- (a * 2 ^ j)) div (2 ^ j * 512) = (- a) div 512"
    using div_mult_mult1[of "2 ^ j" "- a" 512] by (simp add: mult.commute)
  show ?thesis
    using rd dv by (simp add: ceil_div_def truediv_def fits_def ceil_def nat_add_distrib pw)
qed

lemma scale_768:
  assumes "0 < mn"
  obtains m2 e2 where "truediv 768 mn = Inr (Float m2 e2)" "0 \<le> m2" "m2 \<le> 2 ^ 53" "e2 \<le> - 43"
proof -
  from round_double_shape[of 768 mn 0] assms obtain m where
    r: "round_double 768 mn 0 = Float m (max (binary_exponent \<bar>768\<bar> mn + 0) (- 1022) - 52)"
    and m: "\<bar>m\<bar> \<le> 2 ^ 53" "0 \<le> m"
    by auto
  have "binary_exponent 768 mn \<le> int (bitlen 768) - int (bitlen mn)"
    by (rule binary_exponent_upper(2)[OF _ assms]) simp
  then have be: "binary_exponent 768 mn \<le> 9"
    using bitlen_pos[OF assms] by (simp add: bitlen_768)
  show ?thesis
  proof (rule that[of m "max (binary_exponent 768 mn + 0) (- 1022) - 52"])
    show "truediv 768 mn = Inr (Float m (max (binary_exponent 768 mn + 0) (- 1022) - 52))"
      using assms r be by (simp add: truediv_def fits_def Let_def)
    show "0 \<le> m" "m \<le> 2 ^ 53" using m by simp_all
    show "max (binary_exponent 768 mn + 0) (- 1022) - 52 \<le> - 43" using be by simp
  qed
qed

lemma int_of_product_small:
  assumes n: "0 < n" "n < 2 ^ 12" and m2: "0 \<le> m2" "m2 \<le> 2 ^ 53" and e2: "e2 \<le> - 43"
  obtains sw where "int_of_product n (Float m2 e2) = Inr sw" "0 \<le> sw" "sw < 2 ^ 53"
proof -
  from round_double_shape[of n 1 0] n obtain m1 where
    r1: "round_double n 1 0 = Float m1 (max (binary_exponent \<bar>n\<bar> 1 + 0) (- 1022) - 52)"
    and m1: "\<bar>m1\<bar> \<le> 2 ^ 53" "0 \<le> m1"
    by auto
  define e1 where "e1 = max (binary_exponent n 1 + 0) (- 1022) - 52"
  have "binary_exponent n 1 \<le> int (bitlen n) - int (bitlen 1)"
    by (rule binary_exponent_upper(2)[OF n(1)]) simp
  then have be1: "binary_exponent n 1 \<le> 11"
    using bitlen_le[OF n] by (simp add: bitlen_1)
  then have e1b: "e1 \<le> - 41" by (simp add: e1_def)
  have r1': "round_double n 1 0 = Float m1 e1" using r1 n(1) by (simp add: e1_def)
  have f1: "fits (Float m1 e1)" using e1b by (simp add: fits_def)
  show ?thesis
  proof (cases "m1 * m2 = 0")
    case True
    then have "fmul (Float m1 e1) (Float m2 e2) = Float 0 0"
      by (simp add: fmul_def round_double_def)
    then have "int_of_product n (Float m2 e2) = Inr 0"
      using r1' f1 by (simp add: int_of_product_def Let_def fits_def trunc_def)
    then show ?thesis using that[of 0] by simp
  next
    case False
    then have p: "0 < m1 * m2" using m1(2) m2(1) by (simp add: zero_less_mult_iff less_le)
    from round_double_shape[of "m1 * m2" 1 "e1 + e2"] False p obtain m3 where
      r3: "round_double (m1 * m2) 1 (e1 + e2)
             = Float m3 (max (binary_exponent \<bar>m1 * m2\<bar> 1 + (e1 + e2)) (- 1022) - 52)"
      and m3: "\<bar>m3\<bar> \<le> 2 ^ 53" "0 \<le> m3"
      by auto
    define e3 where "e3 = max (binary_exponent (m1 * m2) 1 + (e1 + e2)) (- 1022) - 52"
    have "m1 * m2 \<le> 2 ^ 53 * 2 ^ 53" using m1 m2 by (intro mult_mono) simp_all
    then have "m1 * m2 < 2 ^ 107" by simp
    then have "bitlen (m1 * m2) \<le> 107" by (rule bitlen_le[OF p])
    moreover have "binary_exponent (m1 * m2) 1 \<le> int (bitlen (m1 * m2)) - int (bitlen 1)"
      by (rule binary_exponent_upper(2)[OF p]) simp
    ultimately have "binary_exponent (m1 * m2) 1 \<le> 106" by (simp add: bitlen_1)
    then have e3b: "e3 \<le> - 30" "- 1074 \<le> e3" using e1b e2 by (simp_all add: e3_def)
    have r3': "fmul (Float m1 e1) (Float m2 e2) = Float m3 e3"
      using r3 p by (simp add: fmul_def e3_def)
    have f3: "fits (Float m3 e3)" using e3b by (simp add: fits_def)
    define k where "k = nat (- e3)"
    have k: "30 \<le> k" using e3b by (simp add: k_def)
    have "(2::int) ^ 30 \<le> 2 ^ k" using k by (intro power_increasing) simp_all
    then have "m3 < 2 ^ k * 2 ^ 53" using m3 by simp
    then have lt: "m3 div 2 ^ k < 2 ^ 53" by (intro div_lt_bound) simp_all
    have ge: "0 \<le> m3 div 2 ^ k" using m3(2) by (simp add: pos_imp_zdiv_nonneg_iff)
    have "trunc (Float m3 e3) = m3 div 2 ^ k" using e3b(1) m3(2) by (simp add: trunc_def k_def)
    then have "int_of_product n (Float m2 e2) = Inr (m3 div 2 ^ k)"
      using r1' f1 r3' f3 by (simp add: int_of_product_def Let_def)
    then show ?thesis using that[of "m3 div 2 ^ k"] lt ge by simp
  qed
qed


lemma tile_tokens_small:
  assumes "1 \<le> w" "w \<le> 2048" "1 \<le> h" "h \<le> 2048"
  shows "\<exists>scale sw sh.
           truediv 768 (min w h) = Inr scale
           \<and> int_of_product w scale = Inr sw \<and> int_of_product h scale = Inr sh
           \<and> tile_tokens w h
               = Inr (\<lceil>(of_int sw :: rat) / 512\<rceil> * \<lceil>(of_int sh :: rat) / 512\<rceil> * 170 + 85)"
proof -
  have mn: "0 < min w h" using assms by simp
  from scale_768[OF mn] obtain m2 e2 where
    sc: "truediv 768 (min w h) = Inr (Float m2 e2)" and m2: "0 \<le> m2" "m2 \<le> 2 ^ 53" "e2 \<le> - 43"
    by blast
  have w: "0 < w" "w < 2 ^ 12" and h: "0 < h" "h < 2 ^ 12" using assms by simp_all
  from int_of_product_small[OF w m2] obtain sw where
    sw: "int_of_product w (Float m2 e2) = Inr sw" "0 \<le> sw" "sw < 2 ^ 53" by blast
  from int_of_product_small[OF h m2] obtain sh where
    sh: "int_of_product h (Float m2 e2) = Inr sh" "0 \<le> sh" "sh < 2 ^ 53" by blast
  have cw: "ceil_div sw 512 = Inr \<lceil>(of_int sw :: rat) / 512\<rceil>"
    using ceil_div_512[OF sw(2,3)] ceiling_divide_eq_div[of sw 512, where ?'a = rat] by simp
  have ch: "ceil_div sh 512 = Inr \<lceil>(of_int sh :: rat) / 512\<rceil>"
    using ceil_div_512[OF sh(2,3)] ceiling_divide_eq_div[of sh 512, where ?'a = rat] by simp
  have "tile_tokens w h
          = Inr (\<lceil>(of_int sw :: rat) / 512\<rceil> * \<lceil>(of_int sh :: rat) / 512\<rceil> * 170 + 85)"
    using sc sw(1) sh(1) cw ch
    by (simp add: tile_tokens_def bind_exn_def HIGH_DETAIL_TARGET_SHORT_SIDE_def TILE_SIZE_def
          HIGH_DETAIL_TILE_TOKENS_def LOW_DETAIL_IMAGE_TOKENS_def)
  then show ?thesis using sc sw(1) sh(1) by blast
qed

lemma tile_tokens_zero:
  "min w h = 0 \<Longrightarrow> tile_tokens w h = Inl (Exn ZeroDivisionError (str ''division by zero''))"
  by (simp add: tile_tokens_def truediv_def bind_exn_def)

section \<open>Properties of the image token estimate\<close>

lemma calculate_high_detail_tokens_1024: "calculate_high_detail_tokens 1024 1024 = Inr 765"
  by code_simp

lemma calculate_high_detail_tokens_1334_1000: "calculate_high_detail_tokens 1334 1000 = Inr 765"
  by code_simp

text \<open>
  C8 (as stated): for known dimensions the value follows the tiling formula (scale into
  2048, rescale the shorter side to 768, count tiles of 512 by ceiling). For a
  1334 by 1000 image at detail high the formula gives 1024.512 by 768, that is 3 by 2 tiles
  and 1105 tokens; the code truncates the scaled width to 1024, counts 2 by 2 tiles and
  returns 765.
\<close>

theorem count_image_tiling_counterexample:
  "count_image \<lparr>image_url = [], detail = Some (str ''high''), dimensions = Some (1334, 1000)\<rparr>
     = Inr 765
   \<and> tiling_as_specified 1334 1000 = 1105"
proof
  show "count_image \<lparr>image_url = [], detail = Some (str ''high''),
                      dimensions = Some (1334, 1000)\<rparr> = Inr 765"
    by (simp add: count_image_def str_def calculate_high_detail_tokens_1334_1000)
  show "tiling_as_specified 1334 1000 = 1105"
    by code_simp
qed

text \<open>
  C8 (amended): \<open>count_image\<close> is a function of the detail label and the dimensions: label
  \<open>low\<close> gives 85 whatever the dimensions; \<open>high\<close> with 1024 by 1024 and \<open>high\<close> without
  dimensions give 765; \<open>medium\<close> (also as the default of an absent label) without
  dimensions and every other label give 1024; and \<open>high\<close> or \<open>medium\<close> with known
  dimensions give the tiling value computed in float arithmetic with truncation: when a
  side exceeds 2048, both sides are first replaced by \<open>int(side * scale)\<close> for the float
  \<open>scale = 2048 / max(w, h)\<close>; then, with the float \<open>scale = 768 / min(w, h)\<close>, the sides
  become \<open>w' = int(w * scale)\<close> and \<open>h' = int(h * scale)\<close> and the value is
  \<open>ceil(w' / 512) * ceil(h' / 512) * 170 + 85\<close>. For sides from 1 to 2048 no exception is
  raised and the ceilings are exact; a shorter side of 0 raises \<open>ZeroDivisionError\<close>.
\<close>

theorem count_image_values:
  "count_image \<lparr>image_url = u, detail = Some d, dimensions = dims\<rparr> =
     (if d = str ''low'' then Inr 85
      else if d = str ''high'' \<or> d = str ''medium'' then
        (case dims of
           Some (w, h) \<Rightarrow> calculate_high_detail_tokens w h
         | None \<Rightarrow> if d = str ''high'' then Inr 765 else Inr 1024)
      else Inr 1024)
   \<and> count_image \<lparr>image_url = u, detail = None, dimensions = None\<rparr> = Inr 1024
   \<and> calculate_high_detail_tokens 1024 1024 = Inr 765
   \<and> calculate_high_detail_tokens w h =
       (if w > 2048 \<or> h > 2048 then
          bind_exn (truediv 2048 (max w h)) (\<lambda>scale.
          bind_exn (int_of_product w scale) (\<lambda>w'.
          bind_exn (int_of_product h scale) (\<lambda>h'. tile_tokens w' h')))
        else tile_tokens w h)
   \<and> (1 \<le> w \<and> w \<le> 2048 \<and> 1 \<le> h \<and> h \<le> 2048 \<longrightarrow>
        (\<exists>scale w' h'.
            truediv 768 (min w h) = Inr scale
            \<and> int_of_product w scale = Inr w' \<and> int_of_product h scale = Inr h'
            \<and> tile_tokens w h
                = Inr (\<lceil>(of_int w' :: rat) / 512\<rceil> * \<lceil>(of_int h' :: rat) / 512\<rceil> * 170 + 85)))
   \<and> (min w h = 0 \<longrightarrow>
        tile_tokens w h = Inl (Exn ZeroDivisionError (str ''division by zero'')))"
proof (intro conjI)
  show "count_image \<lparr>image_url = u, detail = Some d, dimensions = dims\<rparr> =
     (if d = str ''low'' then Inr 85
      else if d = str ''high'' \<or> d = str ''medium'' then
        (case dims of
           Some (w, h) \<Rightarrow> calculate_high_detail_tokens w h
         | None \<Rightarrow> if d = str ''high'' then Inr 765 else Inr 1024)
      else Inr 1024)"
    by (auto simp add: count_image_def LOW_DETAIL_IMAGE_TOKENS_def
          calculate_high_detail_tokens_1024 str_def split: option.splits)
  show "count_image \<lparr>image_url = u, detail = None, dimensions = None\<rparr> = Inr 1024"
    by (simp add: count_image_def str_def)
  show "calculate_high_detail_tokens 1024 1024 = Inr 765"
    by (rule calculate_high_detail_tokens_1024)
  show "calculate_high_detail_tokens w h =
       (if w > 2048 \<or> h > 2048 then
          bind_exn (truediv 2048 (max w h)) (\<lambda>scale.
          bind_exn (int_of_product w scale) (\<lambda>w'.
          bind_exn (int_of_product h scale) (\<lambda>h'. tile_tokens w' h')))
        else tile_tokens w h)"
    by (simp add: calculate_high_detail_tokens_def bind_exn_def MAX_SIZE_def split: sum.splits)
  show "1 \<le> w \<and> w \<le> 2048 \<and> 1 \<le> h \<and> h \<le> 2048 \<longrightarrow>
        (\<exists>scale w' h'.
            truediv 768 (min w h) = Inr scale
            \<and> int_of_product w scale = Inr w' \<and> int_of_product h scale = Inr h'
            \<and> tile_tokens w h
                = Inr (\<lceil>(of_int w' :: rat) / 512\<rceil> * \<lceil>(of_int h' :: rat) / 512\<rceil> * 170 + 85))"
    using tile_tokens_small[of w h] by blast
  show "min w h = 0 \<longrightarrow>
        tile_tokens w h = Inl (Exn ZeroDivisionError (str ''division by zero''))"
    by (simp add: tile_tokens_zero)
qed

lemma scale_1334_1000:
  "truediv 768 (min 1334 1000) = Inr (Float 6917529027641082 (- 53))
   \<and> int_of_product 1334 (Float 6917529027641082 (- 53)) = Inr 1024
   \<and> int_of_product 1000 (Float 6917529027641082 (- 53)) = Inr 768"
  by code_simp

theorem count_image_values_witness:
  "(1::int) \<le> 1334 \<and> (1334::int) \<le> 2048 \<and> (1::int) \<le> 1000 \<and> (1000::int) \<le> 2048
   \<and> count_image \<lparr>image_url = [], detail = Some (str ''medium''),
                    dimensions = Some (1334, 1000)\<rparr> = Inr 765"
proof -
  note t = count_image_values[of "[]" "str ''medium''" "Some (1334, 1000)" 1334 1000]
  from t obtain scale w' h' where
    s: "truediv 768 (min 1334 1000) = Inr scale"
       "int_of_product 1334 scale = Inr w'" "int_of_product 1000 scale = Inr h'"
       "tile_tokens 1334 1000
          = Inr (\<lceil>(of_int w' :: rat) / 512\<rceil> * \<lceil>(of_int h' :: rat) / 512\<rceil> * 170 + 85)"
    by auto
  from s(1) scale_1334_1000 have sc: "scale = Float 6917529027641082 (- 53)" by simp
  from s(2,3) scale_1334_1000 have wh: "w' = 1024" "h' = 768" by (simp_all add: sc)
  have c: "\<lceil>(1024::rat) / 512\<rceil> = 2" "\<lceil>(768::rat) / 512\<rceil> = 2"
    by (rule ceiling_unique; simp)+
  have "tile_tokens 1334 1000 = Inr 765" using s(4) c by (simp add: wh)
  moreover have "calculate_high_detail_tokens 1334 1000 = tile_tokens 1334 1000"
    using t by simp
  moreover have "count_image \<lparr>image_url = [], detail = Some (str ''medium''),
                    dimensions = Some (1334, 1000)\<rparr> = calculate_high_detail_tokens 1334 1000"
    using t by (simp add: str_def)
  ultimately show ?thesis by simp
qed

section \<open>Properties of the LLM class\<close>

subsection \<open>One instance per configuration name\<close>









subsection \<open>The token budget and the retries\<close>

text \<open>
  Formatting changes the caller's dicts in place, but a second formatting of the changed
  dicts gives the same batch and changes nothing more, so every attempt of a call sees
  the same messages.
\<close>

lemma format_dict_idem:
  "format_dict si d = (Inr r, d') \<Longrightarrow> format_dict si d' = (Inr r, d')"
  by (auto simp add: format_dict_def Let_def truthy_def split: if_splits)

lemma format_message_idem:
  "format_message td si m = (Inr r, m') \<Longrightarrow> format_message td si m' = (Inr r, m')"
  by (cases m) (auto simp add: format_message_def split: prod.splits dest: format_dict_idem)

lemma format_loop_idem:
  "format_loop td si ms acc = (Inr f, ms') \<Longrightarrow>
     format_loop td si ms' acc = (Inr f, ms') \<and> (ms' = [] \<longleftrightarrow> ms = [])"
proof (induction ms arbitrary: acc ms')
  case Nil
  then show ?case by simp
next
  case (Cons m ms)
  obtain r0 m1 where fm: "format_message td si m = (r0, m1)" by (cases "format_message td si m")
  show ?case
  proof (cases r0)
    case (Inl e)
    then show ?thesis using Cons.prems fm by simp
  next
    case (Inr r)
    obtain res rest' where fl:
      "format_loop td si ms (acc @ (case r of None \<Rightarrow> [] | Some d \<Rightarrow> [d])) = (res, rest')"
      by (cases "format_loop td si ms (acc @ (case r of None \<Rightarrow> [] | Some d \<Rightarrow> [d]))")
    from Cons.prems fm Inr fl have eq: "res = Inr f" "ms' = m1 # rest'" by simp_all
    from Cons.IH[OF fl[unfolded eq(1)]] have
      ih: "format_loop td si rest' (acc @ (case r of None \<Rightarrow> [] | Some d \<Rightarrow> [d])) = (Inr f, rest')"
      by simp
    have "format_message td si m1 = (Inr r, m1)"
      using format_message_idem fm Inr by blast
    then show ?thesis using ih eq by simp
  qed
qed

lemma format_messages_idem:
  "format_messages td si ms = (Inr f, ms') \<Longrightarrow>
     format_messages td si ms' = (Inr f, ms') \<and> (ms' = [] \<longleftrightarrow> ms = [])"
proof -
  assume a: "format_messages td si ms = (Inr f, ms')"
  obtain r0 m0 where fl: "format_loop td si ms [] = (r0, m0)" by (cases "format_loop td si ms []")
  from a fl have r0: "r0 = Inr f" "m0 = ms'"
    and nf: "find (\<lambda>msg. get_or_empty (m_role msg) \<notin> set ROLE_VALUES) f = None"
    by (auto simp add: format_messages_def split: sum.splits option.splits)
  from format_loop_idem[OF fl[unfolded r0]] nf show ?thesis
    by (simp add: format_messages_def)
qed

lemma prepare_idem:
  assumes "prepare env self sy ms = (Inr msgs, sy', ms')"
  shows "prepare env self sy' ms' = (Inr msgs, sy', ms')"
proof (cases "sy = []")
  case True
  then have s: "sy' = []" and f: "format_messages (to_dict env) (model self \<in> set MULTIMODAL_MODELS) ms = (Inr msgs, ms')"
    using assms by (auto simp add: prepare_def Let_def split: prod.splits)
  from format_messages_idem[OF f] s show ?thesis by (simp add: prepare_def)
next
  case False
  obtain r1 s1 where f1: "format_messages (to_dict env) (model self \<in> set MULTIMODAL_MODELS) sy = (r1, s1)"
    by (cases "format_messages (to_dict env) (model self \<in> set MULTIMODAL_MODELS) sy")
  obtain r2 s2 where f2: "format_messages (to_dict env) (model self \<in> set MULTIMODAL_MODELS) ms = (r2, s2)"
    by (cases "format_messages (to_dict env) (model self \<in> set MULTIMODAL_MODELS) ms")
  from assms False f1 f2 obtain sf mf where
    e: "r1 = Inr sf" "r2 = Inr mf" "msgs = sf @ mf" "sy' = s1" "ms' = s2"
    by (auto simp add: prepare_def Let_def split: sum.splits)
  from format_messages_idem[OF f1[unfolded e(1)]] format_messages_idem[OF f2[unfolded e(2)]] False e
  show ?thesis by (simp add: prepare_def)
qed

lemma retry_call_stuck:
  assumes "f s = (Inl e, s)" and "retry e" and "k \<le> 6"
  shows "retry_call retry f k s = (Inl (RetryError e), s, 6)"
  using assms(3)
proof (induction "6 - k" arbitrary: k)
  case 0
  then have "k = 6" by simp
  then show ?case using assms(1,2) by (subst retry_call.simps) simp
next
  case (Suc n)
  then have "\<not> 6 \<le> k" "n = 6 - (k + 1)" "k + 1 \<le> 6" by simp_all
  then show ?case using assms(1,2) Suc.hyps(1)[of "k + 1"]
    by (subst retry_call.simps) simp
qed

lemma retry_call_always_fails:
  assumes "f s = (Inl e, s1)" and "f s1 = (Inl e, s1)" and "retry e"
  shows "retry_call retry f 1 s = (Inl (RetryError e), s1, 6)"
proof -
  have "retry_call retry f (Suc (Suc 0)) s1 = (Inl (RetryError e), s1, 6)"
    using retry_call_stuck[of f s1 e retry "Suc (Suc 0)"] assms(2,3) by simp
  then show ?thesis using assms(1,3) by (subst retry_call.simps) simp
qed

lemma retry_call_once:
  assumes "f s = (Inl e, s')" and "\<not> retry e"
  shows "retry_call retry f k s = (Inl e, s', k)"
  using assms by (subst retry_call.simps) simp

lemma ask_attempt_over_budget:
  assumes "prepare env (cs_llm st) (cs_system_msgs st) (cs_messages st) = (Inr msgs, sy', ms')"
    and "count_message_tokens (tokenizer (cs_llm st)) msgs = Inr n"
    and "max_input_tokens (cs_llm st) = Some m"
    and "total_input_tokens (cs_llm st) + n > m"
  shows "ask_attempt env stream st
           = (Inl (over_budget_error (cs_llm st) n m), st\<lparr>cs_system_msgs := sy', cs_messages := ms'\<rparr>)"
  using assms
  by (simp add: ask_attempt_def Let_def check_token_limit_def get_limit_error_message_def
        over_budget_error_def)

lemma ask_tool_attempt_over_budget:
  assumes "tool_choice \<in> set (TOOL_CHOICE_VALUES env)"
    and "prepare env (cs_llm st) (cs_system_msgs st) (cs_messages st) = (Inr msgs, sy', ms')"
    and "count_message_tokens (tokenizer (cs_llm st)) msgs = Inr n"
    and "max_input_tokens (cs_llm st) = Some m"
    and "total_input_tokens (cs_llm st) + (n + sum_list (map (\<lambda>t. count_tokens (cs_llm st) (tool_str t)) tools)) > m"
  shows "ask_tool_attempt env tools tool_choice st
           = (Inl (over_budget_error (cs_llm st)
                     (n + sum_list (map (\<lambda>t. count_tokens (cs_llm st) (tool_str t)) tools)) m),
              st\<lparr>cs_system_msgs := sy', cs_messages := ms'\<rparr>)"
  using assms
  by (simp add: ask_tool_attempt_def Let_def check_token_limit_def get_limit_error_message_def
        over_budget_error_def)

text \<open>
  C3: when a ceiling is configured and the cumulative input tokens plus the estimate of the
  request (for \<open>ask_tool\<close>, with the tokens of \<open>str(tool)\<close> of every tool offered) exceed it,
  each attempt raises \<open>TokenLimitExceeded\<close> with the current, needed and maximal figures,
  before any request to the provider and leaving the counters as they were. The claim adds
  that the call is attempted exactly once. The retry predicate accepts every instance of
  \<open>Exception\<close>: when \<open>TokenLimitExceeded\<close> derives from \<open>Exception\<close>, the call is attempted
  six times and raises \<open>RetryError\<close> around the last \<open>TokenLimitExceeded\<close>; it is attempted once
  only when the class does not derive from \<open>Exception\<close>.
\<close>

theorem over_budget_attempts:
  assumes prep: "prepare env (cs_llm st) (cs_system_msgs st) (cs_messages st) = (Inr msgs, sy', ms')"
    and cnt: "count_message_tokens (tokenizer (cs_llm st)) msgs = Inr n"
    and mx: "max_input_tokens (cs_llm st) = Some m"
  shows "(total_input_tokens (cs_llm st) + n > m \<longrightarrow>
           ask env stream st =
             (if TokenLimitExceeded_is_Exception env
              then (Inl (RetryError (over_budget_error (cs_llm st) n m)),
                    st\<lparr>cs_system_msgs := sy', cs_messages := ms'\<rparr>, 6)
              else (Inl (over_budget_error (cs_llm st) n m),
                    st\<lparr>cs_system_msgs := sy', cs_messages := ms'\<rparr>, 1)))
       \<and> (tool_choice \<in> set (TOOL_CHOICE_VALUES env)
            \<and> total_input_tokens (cs_llm st)
                + (n + sum_list (map (\<lambda>t. count_tokens (cs_llm st) (tool_str t)) tools)) > m \<longrightarrow>
           ask_tool env tools tool_choice st =
             (let needed = n + sum_list (map (\<lambda>t. count_tokens (cs_llm st) (tool_str t)) tools)
              in if TokenLimitExceeded_is_Exception env
                 then (Inl (RetryError (over_budget_error (cs_llm st) needed m)),
                       st\<lparr>cs_system_msgs := sy', cs_messages := ms'\<rparr>, 6)
                 else (Inl (over_budget_error (cs_llm st) needed m),
                       st\<lparr>cs_system_msgs := sy', cs_messages := ms'\<rparr>, 1)))"
proof (intro conjI impI)
  let ?st1 = "st\<lparr>cs_system_msgs := sy', cs_messages := ms'\<rparr>"
  let ?retry = "retry_if_exception_type (TokenLimitExceeded_is_Exception env)"
  {
    assume over: "total_input_tokens (cs_llm st) + n > m"
    let ?E = "over_budget_error (cs_llm st) n m"
    have a1: "ask_attempt env stream st = (Inl ?E, ?st1)"
      by (rule ask_attempt_over_budget[OF prep cnt mx over])
    have a2: "ask_attempt env stream ?st1 = (Inl ?E, ?st1)"
      using ask_attempt_over_budget[of env ?st1 msgs sy' ms' n m stream] prepare_idem[OF prep]
        cnt mx over by simp
    show "ask env stream st =
             (if TokenLimitExceeded_is_Exception env
              then (Inl (RetryError ?E), ?st1, 6) else (Inl ?E, ?st1, 1))"
    proof (cases "TokenLimitExceeded_is_Exception env")
      case True
      then have r: "?retry ?E" by (simp add: retry_if_exception_type_def over_budget_error_def)
      have "retry_call ?retry (ask_attempt env stream) 1 st = (Inl (RetryError ?E), ?st1, 6)"
        using retry_call_always_fails[of "ask_attempt env stream" st ?E ?st1 ?retry] a1 a2 r
        by simp
      then show ?thesis using True by (simp add: ask_def)
    next
      case False
      then have r: "\<not> ?retry ?E" by (simp add: retry_if_exception_type_def over_budget_error_def)
      from retry_call_once[of "ask_attempt env stream" st ?E ?st1 ?retry 1] a1 r False
      show ?thesis by (simp add: ask_def)
    qed
  }
  {
    let ?needed = "n + sum_list (map (\<lambda>t. count_tokens (cs_llm st) (tool_str t)) tools)"
    assume h: "tool_choice \<in> set (TOOL_CHOICE_VALUES env) \<and> total_input_tokens (cs_llm st) + ?needed > m"
    let ?E = "over_budget_error (cs_llm st) ?needed m"
    have a1: "ask_tool_attempt env tools tool_choice st = (Inl ?E, ?st1)"
      using ask_tool_attempt_over_budget[OF _ prep cnt mx, of tool_choice tools] h by simp
    have a2: "ask_tool_attempt env tools tool_choice ?st1 = (Inl ?E, ?st1)"
      using ask_tool_attempt_over_budget[of tool_choice env ?st1 msgs sy' ms' n m tools]
        prepare_idem[OF prep] cnt mx h by simp
    show "ask_tool env tools tool_choice st =
             (let needed = ?needed
              in if TokenLimitExceeded_is_Exception env
                 then (Inl (RetryError (over_budget_error (cs_llm st) needed m)), ?st1, 6)
                 else (Inl (over_budget_error (cs_llm st) needed m), ?st1, 1))"
    proof (cases "TokenLimitExceeded_is_Exception env")
      case True
      then have r: "?retry ?E" by (simp add: retry_if_exception_type_def over_budget_error_def)
      have "retry_call ?retry (ask_tool_attempt env tools tool_choice) 1 st
              = (Inl (RetryError ?E), ?st1, 6)"
        using retry_call_always_fails[of "ask_tool_attempt env tools tool_choice" st ?E ?st1 ?retry]
          a1 a2 r by simp
      then show ?thesis using True by (simp add: ask_tool_def Let_def)
    next
      case False
      then have r: "\<not> ?retry ?E" by (simp add: retry_if_exception_type_def over_budget_error_def)
      from retry_call_once[of "ask_tool_attempt env tools tool_choice" st ?E ?st1 ?retry 1] a1 r False
      show ?thesis by (simp add: ask_tool_def Let_def)
    qed
  }
qed

lemma prepare_call0:
  "prepare provider0 (cs_llm call0) (cs_system_msgs call0) (cs_messages call0)
     = (Inr [user_dict (str ''0123456789'')], [], cs_messages call0)"
  by (simp add: prepare_def call0_def format_messages_def format_message_def format_dict_def
        user_dict_def truthy_def ROLE_VALUES_def get_or_empty_def str_def Let_def)

lemma count_call0:
  "count_message_tokens (tokenizer (cs_llm call0)) [user_dict (str ''0123456789'')] = Inr 20"
  by (simp add: count_message_tokens_def message_tokens_def count_content_def count_text_def
        bind_exn_def user_dict_def call0_def llm0_def get_or_empty_def FORMAT_TOKENS_def
        BASE_MESSAGE_TOKENS_def str_def)

lemma over_budget_error_call0:
  "over_budget_error (cs_llm call0) 20 100
     = Exn TokenLimitExceeded
         (str ''Request may exceed input token limit (Current: 90, Needed: 20, Max: 100)'')"
  by (simp add: over_budget_error_def call0_def llm0_def str_int_def str_nat.simps str_def)

theorem over_budget_attempts_witness:
  "ask provider0 True call0
     = (Inl (RetryError (Exn TokenLimitExceeded
          (str ''Request may exceed input token limit (Current: 90, Needed: 20, Max: 100)''))),
        call0, 6)
   \<and> ask_tool provider0 [] (str ''auto'') call0
     = (Inl (RetryError (Exn TokenLimitExceeded
          (str ''Request may exceed input token limit (Current: 90, Needed: 20, Max: 100)''))),
        call0, 6)
   \<and> cs_calls call0 = 0"
proof -
  have mx: "max_input_tokens (cs_llm call0) = Some 100" by (simp add: call0_def llm0_def)
  have ov: "total_input_tokens (cs_llm call0) + 20 > 100" by (simp add: call0_def llm0_def)
  have tc: "str ''auto'' \<in> set (TOOL_CHOICE_VALUES provider0)" by (simp add: provider0_def)
  have ex: "TokenLimitExceeded_is_Exception provider0" by (simp add: provider0_def)
  have same: "call0\<lparr>cs_system_msgs := [], cs_messages := cs_messages call0\<rparr> = call0"
    by (simp add: call0_def)
  from over_budget_attempts[OF prepare_call0 count_call0 mx, of True "str ''auto''" "[]"]
    ov tc ex same over_budget_error_call0
  show ?thesis by (simp add: call0_def)
qed

section \<open>Properties of the planning flow\<close>

subsection \<open>Selecting the current step\<close>

lemma is_active_iff: "is_active s \<longleftrightarrow> s \<in> set get_active_statuses"
  by (auto simp add: is_active_def get_active_statuses_def)

lemma find_current_None:
  "find_current steps sts k = None \<longleftrightarrow> (\<forall>j<length steps. \<not> is_active (status_at sts (k + j)))"
proof (induction steps arbitrary: k)
  case Nil
  then show ?case by simp
next
  case (Cons s steps)
  have "(\<forall>j<length (s # steps). \<not> is_active (status_at sts (k + j)))
        \<longleftrightarrow> (\<not> is_active (status_at sts k) \<and> (\<forall>j<length steps. \<not> is_active (status_at sts (Suc k + j))))"
    by (auto simp add: less_Suc_eq_0_disj)
  then show ?case using Cons.IH[of "Suc k"]
    by (auto simp add: Let_def is_active_iff status_at_def)
qed

lemma find_current_Some:
  "find_current steps sts k = Some (i, s) \<Longrightarrow>
     k \<le> i \<and> i - k < length steps \<and> s = steps ! (i - k) \<and> is_active (status_at sts i)
     \<and> (\<forall>j. k \<le> j \<and> j < i \<longrightarrow> \<not> is_active (status_at sts j))"
proof (induction steps arbitrary: k)
  case Nil
  then show ?case by simp
next
  case (Cons s0 steps)
  show ?case
  proof (cases "is_active (status_at sts k)")
    case True
    then show ?thesis using Cons.prems
      by (auto simp add: Let_def is_active_iff status_at_def split: if_splits)
  next
    case False
    then have "find_current steps sts (Suc k) = Some (i, s)" using Cons.prems
      by (auto simp add: Let_def is_active_iff status_at_def split: if_splits)
    from Cons.IH[OF this] have ih: "Suc k \<le> i" "i - Suc k < length steps" "s = steps ! (i - Suc k)"
      "is_active (status_at sts i)" "\<forall>j. Suc k \<le> j \<and> j < i \<longrightarrow> \<not> is_active (status_at sts j)"
      by simp_all
    have "(s0 # steps) ! (i - k) = steps ! (i - Suc k)" using ih(1) by (simp add: nth_Cons')
    moreover have "\<forall>j. k \<le> j \<and> j < i \<longrightarrow> \<not> is_active (status_at sts j)"
      using ih(5) False by (metis Suc_leI le_neq_implies_less)
    ultimately show ?thesis using ih by auto
  qed
qed

lemma get_current_step_info_index:
  assumes "active_plan_id fl \<noteq> []" and "plans fl (active_plan_id fl) = Some plan"
  shows "fst (get_current_step_info env fl) =
           (case find_current (get_field (p_steps plan)) (get_field (p_step_statuses plan)) 0 of
              None \<Rightarrow> (None, None)
            | Some (i, step) \<Rightarrow>
                (Some i, Some \<lparr>si_text = step, si_type = map_option lower (search_tag step)\<rparr>))"
  using assms
  by (auto simp add: get_current_step_info_def Let_def split: option.splits prod.splits sum.splits)

lemma valid_inactive:
  assumes "statuses_valid sts"
  shows "\<not> is_active (status_at sts i)
         \<longleftrightarrow> status_at sts i = status_value COMPLETED \<or> status_at sts i = status_value BLOCKED"
proof -
  have "status_at sts i \<in> set get_all_statuses"
    using assms by (auto simp add: status_at_def statuses_valid_def list_all_iff get_all_statuses_def)
  then show ?thesis
    by (auto simp add: is_active_def get_all_statuses_def str_def)
qed

text \<open>
  C4: for a plan in storage, \<open>_get_current_step_info\<close> returns the lowest index whose
  status, with \<open>not_started\<close> standing for an index beyond the end of \<open>step_statuses\<close>, is
  \<open>not_started\<close> or \<open>in_progress\<close>, together with that step's text; it returns
  \<open>(None, None)\<close> when no step has such a status, which for stored statuses that are values
  of the enumeration is exactly when every step is \<open>completed\<close> or \<open>blocked\<close>.
\<close>

theorem current_step_selection:
  assumes "active_plan_id fl \<noteq> []" and "plans fl (active_plan_id fl) = Some plan"
  shows "(case fst (get_current_step_info env fl) of
            (Some i, info) \<Rightarrow>
               i < length (get_field (p_steps plan))
               \<and> is_active (status_at (get_field (p_step_statuses plan)) i)
               \<and> (\<forall>j<i. \<not> is_active (status_at (get_field (p_step_statuses plan)) j))
               \<and> map_option si_text info = Some (get_field (p_steps plan) ! i)
          | (None, info) \<Rightarrow>
               info = None
               \<and> (\<forall>i<length (get_field (p_steps plan)).
                     \<not> is_active (status_at (get_field (p_step_statuses plan)) i)))
       \<and> (statuses_valid (get_field (p_step_statuses plan)) \<longrightarrow>
            (fst (get_current_step_info env fl) = (None, None)
             \<longleftrightarrow> (\<forall>i<length (get_field (p_steps plan)).
                    status_at (get_field (p_step_statuses plan)) i = status_value COMPLETED
                    \<or> status_at (get_field (p_step_statuses plan)) i = status_value BLOCKED)))"
proof -
  let ?steps = "get_field (p_steps plan)" and ?sts = "get_field (p_step_statuses plan)"
  note idx = get_current_step_info_index[OF assms, of env]
  show ?thesis
  proof (cases "find_current ?steps ?sts 0")
    case None
    then have all: "\<forall>i<length ?steps. \<not> is_active (status_at ?sts i)"
      using find_current_None[of ?steps ?sts 0] by simp
    then show ?thesis using idx None by (auto simp add: valid_inactive)
  next
    case (Some p)
    obtain i s where p: "p = (i, s)" by (cases p)
    from find_current_Some[OF Some[unfolded p]] have
      f: "i < length ?steps" "s = ?steps ! i" "is_active (status_at ?sts i)"
         "\<forall>j<i. \<not> is_active (status_at ?sts j)"
      by simp_all
    have "statuses_valid ?sts \<longrightarrow>
            \<not> (\<forall>i<length ?steps. status_at ?sts i = status_value COMPLETED
                                 \<or> status_at ?sts i = status_value BLOCKED)"
      using f(1,3) valid_inactive by blast
    then show ?thesis using idx Some p f by auto
  qed
qed

lemma flow_abc_current:
  "fst (get_current_step_info failing_env flow_abc)
     = (Some 1, Some \<lparr>si_text = str ''b'', si_type = None\<rparr>)"
  by (simp add: get_current_step_info_def flow_abc_def plan_abc_def get_field_def Let_def
        get_active_statuses_def call_tool_def failing_env_def lower_def str_def)

theorem current_step_selection_witness:
  "active_plan_id flow_abc \<noteq> [] \<and> plans flow_abc (active_plan_id flow_abc) = Some plan_abc
   \<and> statuses_valid (get_field (p_step_statuses plan_abc))
   \<and> fst (get_current_step_info failing_env flow_abc)
       = (Some 1, Some \<lparr>si_text = str ''b'', si_type = None\<rparr>)
   \<and> is_active (status_at (get_field (p_step_statuses plan_abc)) 1)
   \<and> \<not> is_active (status_at (get_field (p_step_statuses plan_abc)) 0)"
proof -
  have h1: "active_plan_id flow_abc \<noteq> []" by (simp add: flow_abc_def str_def)
  have h2: "plans flow_abc (active_plan_id flow_abc) = Some plan_abc" by (simp add: flow_abc_def)
  have v: "statuses_valid (get_field (p_step_statuses plan_abc))"
    by (simp add: statuses_valid_def plan_abc_def get_field_def get_all_statuses_def)
  from current_step_selection[OF h1 h2, of failing_env] flow_abc_current
  have "is_active (status_at (get_field (p_step_statuses plan_abc)) 1)
        \<and> (\<forall>j<1. \<not> is_active (status_at (get_field (p_step_statuses plan_abc)) j))"
    by simp
  then show ?thesis using h1 h2 v flow_abc_current by simp
qed

subsection \<open>The rendered plan text\<close>

lemma render_steps_closed:
  "render_steps i xs acc = acc @ concat (map step_line (zip [i..<i + length xs] xs))"
proof (induction xs arbitrary: i acc)
  case Nil
  then show ?case by simp
next
  case (Cons x xs)
  obtain step status nts where x: "x = (step, status, nts)" by (cases x)
  have "[i..<i + length (x # xs)] = i # [Suc i..<Suc i + length xs]"
    by (subst upt_rec) simp
  then show ?case using Cons.IH[of "Suc i"]
    by (simp add: x Let_def step_line_def)
qed

lemma fold_count:
  "fold (\<lambda>status status_counts.
             if status \<in> set get_all_statuses
             then status_counts(status := status_counts status + 1) else status_counts) xs f s
   = f s + (if s \<in> set get_all_statuses then length (filter (\<lambda>x. x = s) xs) else 0)"
  by (induction xs arbitrary: f) auto

lemma count_statuses_eq:
  "count_statuses xs s = (if s \<in> set get_all_statuses then length (filter (\<lambda>x. x = s) xs) else 0)"
  by (simp add: count_statuses_def fold_count)

lemma status_mark_values:
  "status_mark (status_value COMPLETED) = [91, 10003, 93]"
  "status_mark (status_value IN_PROGRESS) = [91, 8594, 93]"
  "status_mark (status_value BLOCKED) = str ''[!]''"
  "status_mark (status_value NOT_STARTED) = str ''[ ]''"
  by (simp_all add: status_mark_def get_status_marks_def str_def)

lemma status_mark_other:
  "status_mark s = (if s \<in> set get_all_statuses then status_mark s else str ''[ ]'')"
  by (auto simp add: status_mark_def get_status_marks_def get_all_statuses_def str_def
        split: option.splits)

lemma progress_text_zero: "progress_text c 0 = Inr (str ''0.0'')"
  by (simp add: progress_text_def format_1f_def fits_def str_nat.simps str_def)

lemma progress_text_1_3: "progress_text 1 3 = Inr (str ''33.3'')"
  by code_simp

text \<open>
  C9: for a plan in storage whose progress figure can be computed, the rendered text is the
  title line, a rule of \<open>=\<close> as long as that line with its newline, the progress line
  \<open>Progress: completed/total steps completed (pct%)\<close>, the status line, and one line per step
  \<open>i. mark step\<close> (with a note line for a non-empty note), where the marks are \<open>[\<checkmark>]\<close>,
  \<open>[\<rightarrow>]\<close>, \<open>[!]\<close> and \<open>[ ]\<close> for completed, in progress, blocked and not started, and
  the percentage is \<open>0.0\<close> when there are no steps. For the steps a, b, c with statuses
  completed, in progress, not started the progress line reads
  \<open>Progress: 1/3 steps completed (33.3%)\<close> and step 1 carries the arrow.
\<close>

theorem plan_text_rendering:
  assumes "plans fl (active_plan_id fl) = Some plan"
    and "progress_text (count_of COMPLETED plan) (length (get_field (p_steps plan))) = Inr pct"
  shows "fst (generate_plan_text_from_storage fl) =
           str ''Plan: '' @ (case p_title plan of None \<Rightarrow> str ''Untitled Plan'' | Some t \<Rightarrow> t)
             @ str '' (ID: '' @ active_plan_id fl @ str '')'' @ [10]
           @ replicate (length (str ''Plan: ''
                 @ (case p_title plan of None \<Rightarrow> str ''Untitled Plan'' | Some t \<Rightarrow> t)
                 @ str '' (ID: '' @ active_plan_id fl @ str '')'' @ [10])) 61 @ [10, 10]
           @ str ''Progress: '' @ str_nat (count_of COMPLETED plan) @ str ''/''
             @ str_nat (length (get_field (p_steps plan))) @ str '' steps completed ('' @ pct
             @ str ''%)'' @ [10]
           @ str ''Status: '' @ str_nat (count_of COMPLETED plan) @ str '' completed, ''
             @ str_nat (count_of IN_PROGRESS plan) @ str '' in progress, ''
             @ str_nat (count_of BLOCKED plan) @ str '' blocked, ''
             @ str_nat (count_of NOT_STARTED plan) @ str '' not started'' @ [10, 10]
           @ str ''Steps:'' @ [10]
           @ concat (map step_line
               (zip [0..<length (get_field (p_steps plan))]
                  (zip (get_field (p_steps plan)) (zip (padded_statuses plan) (padded_notes plan)))))
       \<and> (get_field (p_steps plan) = [] \<longrightarrow> pct = str ''0.0'')
       \<and> status_mark (status_value COMPLETED) = [91, 10003, 93]
       \<and> status_mark (status_value IN_PROGRESS) = [91, 8594, 93]
       \<and> status_mark (status_value BLOCKED) = str ''[!]''
       \<and> status_mark (status_value NOT_STARTED) = str ''[ ]''"
proof -
  have v: "status_value st \<in> set get_all_statuses" for st
    by (cases st) (simp_all add: get_all_statuses_def)
  have c: "count_statuses (padded_statuses plan) (status_value st) = count_of st plan" for st
    by (simp only: count_statuses_eq v count_of_def if_True)
  have len: "length (zip (get_field (p_steps plan)) (zip (padded_statuses plan) (padded_notes plan)))
               = length (get_field (p_steps plan))"
    by (simp add: padded_statuses_def padded_notes_def pad_to_def)
  have z: "get_field (p_steps plan) = [] \<longrightarrow> pct = str ''0.0''"
    using assms(2) by (auto simp add: progress_text_zero)
  have "fst (generate_plan_text_from_storage fl) =
           str ''Plan: '' @ (case p_title plan of None \<Rightarrow> str ''Untitled Plan'' | Some t \<Rightarrow> t)
             @ str '' (ID: '' @ active_plan_id fl @ str '')'' @ [10]
           @ replicate (length (str ''Plan: ''
                 @ (case p_title plan of None \<Rightarrow> str ''Untitled Plan'' | Some t \<Rightarrow> t)
                 @ str '' (ID: '' @ active_plan_id fl @ str '')'' @ [10])) 61 @ [10, 10]
           @ str ''Progress: '' @ str_nat (count_of COMPLETED plan) @ str ''/''
             @ str_nat (length (get_field (p_steps plan))) @ str '' steps completed ('' @ pct
             @ str ''%)'' @ [10]
           @ str ''Status: '' @ str_nat (count_of COMPLETED plan) @ str '' completed, ''
             @ str_nat (count_of IN_PROGRESS plan) @ str '' in progress, ''
             @ str_nat (count_of BLOCKED plan) @ str '' blocked, ''
             @ str_nat (count_of NOT_STARTED plan) @ str '' not started'' @ [10, 10]
           @ str ''Steps:'' @ [10]
           @ concat (map step_line
               (zip [0..<length (get_field (p_steps plan))]
                  (zip (get_field (p_steps plan)) (zip (padded_statuses plan) (padded_notes plan)))))"
    using assms(2) len
    unfolding generate_plan_text_from_storage_def Let_def render_steps_closed
      padded_statuses_def[symmetric] padded_notes_def[symmetric] c assms(1) option.case
    by simp
  then show ?thesis using z status_mark_values by simp
qed

theorem plan_text_rendering_witness:
  "plans flow_abc (active_plan_id flow_abc) = Some plan_abc
   \<and> progress_text (count_of COMPLETED plan_abc) (length (get_field (p_steps plan_abc)))
       = Inr (str ''33.3'')
   \<and> fst (generate_plan_text_from_storage flow_abc) =
       str ''Plan: Demo (ID: plan_1)'' @ [10]
       @ str ''========================'' @ [10, 10]
       @ str ''Progress: 1/3 steps completed (33.3%)'' @ [10]
       @ str ''Status: 1 completed, 1 in progress, 0 blocked, 1 not started'' @ [10, 10]
       @ str ''Steps:'' @ [10]
       @ str ''0. '' @ [91, 10003, 93] @ str '' a'' @ [10]
       @ str ''1. '' @ [91, 8594, 93] @ str '' b'' @ [10]
       @ str ''2. [ ] c'' @ [10]"
proof -
  have h1: "plans flow_abc (active_plan_id flow_abc) = Some plan_abc"
    by (simp add: flow_abc_def)
  have h2: "progress_text (count_of COMPLETED plan_abc) (length (get_field (p_steps plan_abc)))
              = Inr (str ''33.3'')"
    by code_simp
  note t = plan_text_rendering[OF h1 h2, THEN conjunct1]
  have "fst (generate_plan_text_from_storage flow_abc) =
       str ''Plan: Demo (ID: plan_1)'' @ [10]
       @ str ''========================'' @ [10, 10]
       @ str ''Progress: 1/3 steps completed (33.3%)'' @ [10]
       @ str ''Status: 1 completed, 1 in progress, 0 blocked, 1 not started'' @ [10, 10]
       @ str ''Steps:'' @ [10]
       @ str ''0. '' @ [91, 10003, 93] @ str '' a'' @ [10]
       @ str ''1. '' @ [91, 8594, 93] @ str '' b'' @ [10]
       @ str ''2. [ ] c'' @ [10]"
    by (subst t) code_simp
  then show ?thesis using h1 h2 by simp
qed

subsection \<open>Exceptions and \<open>execute\<close>\<close>

lemma execute_no_primary_agent:
  "primary_agent fl = None \<Longrightarrow>
     execute env input_text fl
       = Some (Inr (str ''Execution failed: No primary agent available''), fl)"
  by (simp add: execute_def execute_body_def str_def)

text \<open>
  C7: the claim says that without a primary agent \<open>execute\<close> raises its precondition error
  to the caller, and that all other failures are absorbed. The \<open>raise\<close> stands inside the
  \<open>try\<close> block whose \<open>except Exception\<close> clause returns \<open>Execution failed: ...\<close>, so no
  exception leaves \<open>execute\<close> at all: whenever it returns, it returns a text, and without a
  primary agent that text is \<open>Execution failed: No primary agent available\<close>.
\<close>

theorem execute_never_raises:
  "execute env input_text fl = Some (r, fl') \<Longrightarrow> \<exists>text. r = Inr text"
  by (auto simp add: execute_def split: option.splits sum.splits prod.splits)

theorem execute_never_raises_witness:
  "execute failing_env (str ''Build a thing'') (flow_abc\<lparr>primary_agent_key := None\<rparr>)
     = Some (Inr (str ''Execution failed: No primary agent available''),
             flow_abc\<lparr>primary_agent_key := None\<rparr>)
   \<and> (\<exists>text. (Inr (str ''Execution failed: No primary agent available'') :: exn + pystr)
                = Inr text)"
proof -
  have p: "primary_agent (flow_abc\<lparr>primary_agent_key := None\<rparr>) = None"
    by (simp add: primary_agent_def)
  note e = execute_no_primary_agent[OF p, of failing_env "str ''Build a thing''"]
  from execute_never_raises[OF e] e show ?thesis by simp
qed

end
